theory Spec2Isabelle
  imports Complex_Main "HOL-Library.Multiset" "HOL-Library.Extended_Nat"
begin

section \<open>Data model (shared/schema.ts)\<close>

text \<open>
  Each table row is a record. Field names carry a short prefix of their table, since
  several tables share column names (id, role, status, projectId). Identifiers are
  strings, timestamps are natural numbers (milliseconds, counted from the earliest
  time a timestamp column holds), a nullable column is an option. Columns that no modelled function reads (avatar, tagline, descriptions,
  file URLs and the like) are left out.
\<close>

type_synonym ident = string
type_synonym timestamp = nat

record Profile =
  pf_id :: ident
  pf_userId :: "ident option"
  pf_name :: string
  pf_role :: string
  pf_location :: "string option"
  pf_tags :: "string list option"

record Project =
  pj_id :: ident
  pj_name :: string
  pj_vibeCodeId :: ident

record ProjectMember =
  pm_id :: ident
  pm_projectId :: ident
  pm_profileId :: ident
  pm_role :: string
  pm_compensationType :: string
  pm_compensationAmount :: "rat option"
  pm_ownershipPercentage :: "rat option"
  pm_hasAccess :: bool
  pm_joinedAt :: timestamp

record CodeRepository =
  cr_id :: ident
  cr_projectId :: ident
  cr_uploadedBy :: ident
  cr_name :: string
  cr_uploadedAt :: timestamp

record Task =
  tk_id :: ident
  tk_projectId :: ident
  tk_title :: string
  tk_assignedTo :: "ident option"
  tk_createdBy :: ident
  tk_status :: string
  tk_createdAt :: timestamp

record Contribution =
  cn_id :: ident
  cn_projectId :: ident
  cn_contributorId :: ident
  cn_valueScore :: "int option"
  cn_createdAt :: timestamp

record Match =
  mt_id :: ident
  mt_initiatorId :: ident
  mt_receiverId :: ident
  mt_status :: string
  mt_matchType :: string
  mt_matchReason :: "string option"
  mt_message :: "string option"
  mt_createdAt :: "timestamp option"
  mt_respondedAt :: "timestamp option"

text \<open>
  InsertMatch: the Match columns without id, createdAt and respondedAt. status has a
  column default, so the insert schema makes it optional.
\<close>

record InsertMatch =
  im_initiatorId :: ident
  im_receiverId :: ident
  im_status :: "string option"
  im_matchType :: string
  im_matchReason :: "string option"
  im_message :: "string option"

text \<open>The database: one list of rows per table.\<close>

record Db =
  profiles :: "Profile list"
  projects :: "Project list"
  projectMembers :: "ProjectMember list"
  codeRepositories :: "CodeRepository list"
  tasks :: "Task list"
  contributions :: "Contribution list"
  matches :: "Match list"

text \<open>
  An HTTP reply: \<open>res.status(c).json(v)\<close> with a payload, or with an
  \<open>{error: msg}\<close> object. The connection to the database does not fail here: a
  statement throws only where its model below says so, and the catch blocks of the
  handlers are reached only where a branch below says so.
\<close>

datatype 'a reply = Ok nat 'a | Fail nat string

fun statusOf :: "'a reply \<Rightarrow> nat" where
  "statusOf (Ok c v) = c"
| "statusOf (Fail c e) = c"

section \<open>JavaScript helpers\<close>

text \<open>
  \<open>Array.prototype.sort\<close> with the comparator \<open>(a, b) => key(b) - key(a)\<close>:
  the sort is stable, so its result is the one list that is ordered by descending key
  and keeps equal keys in their input order. Insertion from the right computes it.
\<close>

fun insertDesc :: "('a \<Rightarrow> 'k::linorder) \<Rightarrow> 'a \<Rightarrow> 'a list \<Rightarrow> 'a list" where
  "insertDesc f x [] = [x]"
| "insertDesc f x (y # ys) = (if f y \<le> f x then x # y # ys else y # insertDesc f x ys)"

fun sortDesc :: "('a \<Rightarrow> 'k::linorder) \<Rightarrow> 'a list \<Rightarrow> 'a list" where
  "sortDesc f [] = []"
| "sortDesc f (x # xs) = insertDesc f x (sortDesc f xs)"

text \<open>\<open>xs.slice(0, n)\<close> for an integer n: a negative n counts from the end.\<close>

definition slice0 :: "int \<Rightarrow> 'a list \<Rightarrow> 'a list" where
  "slice0 n xs = (if n < 0 then take (nat (int (length xs) + n)) xs else take (nat n) xs)"

text \<open>Truthiness of a string-or-undefined value: present and not the empty string.\<close>

fun truthy :: "'a list option \<Rightarrow> bool" where
  "truthy None = False"
| "truthy (Some s) = (s \<noteq> [])"

text \<open>
  A JavaScript number: NaN, the two infinities, or a finite double, given by its
  value. Negative zero is not told apart from zero.
\<close>

datatype jsnumber = NaN | NegInf | Fin rat | PosInf

text \<open>The comparisons \<open>a < b\<close> and \<open>a >= b\<close>: false when an operand is NaN.\<close>

fun jsLess :: "jsnumber \<Rightarrow> jsnumber \<Rightarrow> bool" where
  "jsLess (Fin x) (Fin y) = (x < y)"
| "jsLess NegInf (Fin y) = True"
| "jsLess NegInf PosInf = True"
| "jsLess (Fin x) PosInf = True"
| "jsLess a b = False"

definition jsGe :: "jsnumber \<Rightarrow> jsnumber \<Rightarrow> bool" where
  "jsGe a b = (a \<noteq> NaN \<and> b \<noteq> NaN \<and> \<not> jsLess a b)"

text \<open>
  The difference \<open>a - b\<close> as a sort comparator returns it: only its sign is used, and
  the rounded difference of two doubles has the sign of the exact one, so the finite
  case is the exact difference.
\<close>

fun jsMinus :: "jsnumber \<Rightarrow> jsnumber \<Rightarrow> jsnumber" where
  "jsMinus (Fin x) (Fin y) = Fin (x - y)"
| "jsMinus NaN b = NaN"
| "jsMinus a NaN = NaN"
| "jsMinus PosInf PosInf = NaN"
| "jsMinus NegInf NegInf = NaN"
| "jsMinus PosInf b = PosInf"
| "jsMinus NegInf b = NegInf"
| "jsMinus (Fin x) PosInf = NegInf"
| "jsMinus (Fin x) NegInf = PosInf"

definition jsPositive :: "jsnumber \<Rightarrow> bool" where
  "jsPositive n = jsLess (Fin 0) n"

text \<open>
  \<open>Array.prototype.sort\<close> with a comparator function: the sort is stable, and an
  element moves behind a later one only when the comparator is positive for the pair
  (a NaN result counts as 0). For a comparator that is consistent on the elements the
  result is the one stable ordering, which insertion from the right computes.
\<close>

fun insertWith :: "('a \<Rightarrow> 'a \<Rightarrow> jsnumber) \<Rightarrow> 'a \<Rightarrow> 'a list \<Rightarrow> 'a list" where
  "insertWith cmp x [] = [x]"
| "insertWith cmp x (y # ys) =
     (if jsPositive (cmp x y) then y # insertWith cmp x ys else x # y # ys)"

fun sortWith :: "('a \<Rightarrow> 'a \<Rightarrow> jsnumber) \<Rightarrow> 'a list \<Rightarrow> 'a list" where
  "sortWith cmp [] = []"
| "sortWith cmp (x # xs) = insertWith cmp x (sortWith cmp xs)"

text \<open>
  A query parameter is a JavaScript string, a list of UTF-16 code units; \<open>units\<close>
  gives the code units of an ASCII literal.
\<close>

type_synonym jsstring = "nat list"

definition units :: "string \<Rightarrow> jsstring" where
  "units s = map of_char s"

text \<open>
  \<open>parseInt(s, 10)\<close>: leading white space is skipped (the WhiteSpace and
  LineTerminator code points of the language), one sign is read, then the longest run
  of decimal digits; no digit gives NaN, here \<open>None\<close>. (A run of digits too long for
  a double is rounded by JavaScript, up to Infinity; its only use below clamps the
  value to [1, 20], which gives the same for the rounded and for the exact value.)
\<close>

definition isWhite :: "nat \<Rightarrow> bool" where
  "isWhite c =
     (c \<in> set [0x09, 0x0A, 0x0B, 0x0C, 0x0D, 0x20, 0xA0, 0x1680, 0x2028, 0x2029, 0x202F,
                0x205F, 0x3000, 0xFEFF]
      \<or> (0x2000 \<le> c \<and> c \<le> 0x200A))"

definition isDigit :: "nat \<Rightarrow> bool" where
  "isDigit c = (48 \<le> c \<and> c \<le> 57)"

definition digitVal :: "nat \<Rightarrow> int" where
  "digitVal c = int c - 48"

definition parseInt10 :: "jsstring \<Rightarrow> int option" where
  "parseInt10 s =
     (let t = dropWhile isWhite s;
          neg = (t \<noteq> [] \<and> hd t = 45);
          u = (if t \<noteq> [] \<and> (hd t = 45 \<or> hd t = 43) then tl t else t);
          ds = takeWhile isDigit u
      in if ds = [] then None
         else Some ((if neg then - 1 else 1) * foldl (\<lambda>a d. 10 * a + digitVal d) 0 ds))"

text \<open>
  Arithmetic on doubles. \<open>roundDouble q\<close> is the double an exact result q is rounded
  to: the nearest number with a significand of 53 bits and an exponent of at least
  \<open>- 1022\<close> (the subnormal numbers lie below it), a tie going to the even
  significand, and an infinity when the rounded magnitude reaches \<open>2 ^ 1024\<close>.
  \<open>bits n\<close> is the length of n in binary, \<open>pow2 e\<close> is 2 to the power e, and
  \<open>exponentOf a\<close>, for a positive a, is the exponent e with
  \<open>pow2 e \<le> a < pow2 (e + 1)\<close>.
\<close>

fun bits :: "nat \<Rightarrow> nat" where
  "bits n = (if n = 0 then 0 else Suc (bits (n div 2)))"

declare bits.simps [simp del]

definition pow2 :: "int \<Rightarrow> rat" where
  "pow2 e = (if 0 \<le> e then 2 ^ nat e else 1 / 2 ^ nat (- e))"

definition exponentOf :: "rat \<Rightarrow> int" where
  "exponentOf a =
     (if 1 \<le> a then int (bits (nat \<lfloor>a\<rfloor>)) - 1
      else - int (bits (nat (\<lceil>1 / a\<rceil> - 1))))"

definition roundHalfEven :: "rat \<Rightarrow> int" where
  "roundHalfEven x =
     (let f = \<lfloor>x\<rfloor>; d = x - of_int f
      in if d < 1 / 2 then f else if 1 / 2 < d then f + 1 else if even f then f else f + 1)"

definition roundDouble :: "rat \<Rightarrow> jsnumber" where
  "roundDouble q =
     (if q = 0 then Fin 0
      else let a = \<bar>q\<bar>;
               e = max (exponentOf a) (- 1022);
               ulp = pow2 (e - 52);
               r = of_int (roundHalfEven (a / ulp)) * ulp
           in if pow2 1024 \<le> r then (if 0 < q then PosInf else NegInf)
              else Fin (if 0 < q then r else - r))"

text \<open>
  The operators \<open>+\<close>, \<open>*\<close> and \<open>/\<close> on numbers. With the two zeros told apart
  only by a division by zero, such a division is given the sign of the dividend; the
  code below divides only by a number that compares greater than 0.
\<close>

fun jsPlus :: "jsnumber \<Rightarrow> jsnumber \<Rightarrow> jsnumber" where
  "jsPlus (Fin x) (Fin y) = roundDouble (x + y)"
| "jsPlus NaN b = NaN"
| "jsPlus a NaN = NaN"
| "jsPlus PosInf NegInf = NaN"
| "jsPlus NegInf PosInf = NaN"
| "jsPlus PosInf b = PosInf"
| "jsPlus NegInf b = NegInf"
| "jsPlus (Fin x) PosInf = PosInf"
| "jsPlus (Fin x) NegInf = NegInf"

fun jsNegate :: "jsnumber \<Rightarrow> jsnumber" where
  "jsNegate (Fin x) = Fin (- x)"
| "jsNegate PosInf = NegInf"
| "jsNegate NegInf = PosInf"
| "jsNegate NaN = NaN"

fun jsTimes :: "jsnumber \<Rightarrow> jsnumber \<Rightarrow> jsnumber" where
  "jsTimes (Fin x) (Fin y) = roundDouble (x * y)"
| "jsTimes NaN b = NaN"
| "jsTimes a NaN = NaN"
| "jsTimes (Fin x) b = (if x = 0 then NaN else if 0 < x then b else jsNegate b)"
| "jsTimes a (Fin y) = (if y = 0 then NaN else if 0 < y then a else jsNegate a)"
| "jsTimes PosInf b = b"
| "jsTimes NegInf b = jsNegate b"

fun jsDivide :: "jsnumber \<Rightarrow> jsnumber \<Rightarrow> jsnumber" where
  "jsDivide (Fin x) (Fin y) =
     (if y = 0 then (if x = 0 then NaN else if 0 < x then PosInf else NegInf)
      else roundDouble (x / y))"
| "jsDivide NaN b = NaN"
| "jsDivide a NaN = NaN"
| "jsDivide (Fin x) b = Fin 0"
| "jsDivide a (Fin y) = (if 0 \<le> y then a else jsNegate a)"
| "jsDivide a b = NaN"

text \<open>\<open>n || 0\<close> for a number n: NaN and 0 are falsy.\<close>

fun orZero :: "jsnumber \<Rightarrow> jsnumber" where
  "orZero NaN = Fin 0"
| "orZero n = n"

text \<open>
  A plain object used as a dictionary, \<open>{}\<close>: its own properties in the order of
  their creation, on top of what every object inherits. Reading a key that is no own
  property gives undefined unless it is a name of \<open>Object.prototype\<close>: then it gives
  a method (a function) or, for \<open>__proto__\<close>, the prototype object. Assigning a
  string to \<open>__proto__\<close> sets nothing; assigning to any other key creates or
  replaces the own property. \<open>Object.entries\<close> lists the own properties: the keys
  that are array indices (decimal numerals below \<open>2 ^ 32 - 1\<close>) first, ascending,
  then the other keys in the order of their creation.
\<close>

definition inheritedNames :: "string list" where
  "inheritedNames =
     [''constructor'', ''hasOwnProperty'', ''isPrototypeOf'', ''propertyIsEnumerable'',
      ''toLocaleString'', ''toString'', ''valueOf'', ''__defineGetter__'',
      ''__defineSetter__'', ''__lookupGetter__'', ''__lookupSetter__'']"

definition plainKey :: "string \<Rightarrow> bool" where
  "plainKey k = (k \<noteq> ''__proto__'' \<and> k \<notin> set inheritedNames)"

definition arrayIndex :: "string \<Rightarrow> nat option" where
  "arrayIndex k =
     (let ds = units k; n = foldl (\<lambda>a d. 10 * a + (d - 48)) 0 ds
      in if ds \<noteq> [] \<and> list_all isDigit ds \<and> (hd ds \<noteq> 48 \<or> length ds = 1) \<and> n < 2 ^ 32 - 1
         then Some n else None)"

definition objectEntries :: "(string \<times> 'a) list \<Rightarrow> (string \<times> 'a) list" where
  "objectEntries own =
     sort_key (\<lambda>e. the (arrayIndex (fst e))) (filter (\<lambda>e. arrayIndex (fst e) \<noteq> None) own)
     @ filter (\<lambda>e. arrayIndex (fst e) = None) own"

section \<open>Storage (server/storage.ts)\<close>

text \<open>
  The queries of DbStorage over the row lists. \<open>result[0]\<close> of a select by key is the
  first matching row. \<open>userId\<close> is a unique column, so the ordering of
  getProfileByUserId does not choose between rows.
\<close>

definition getProfile :: "Db \<Rightarrow> ident \<Rightarrow> Profile option" where
  "getProfile db i = find (\<lambda>p. pf_id p = i) (profiles db)"

definition getProfileByUserId :: "Db \<Rightarrow> ident \<Rightarrow> Profile option" where
  "getProfileByUserId db u = find (\<lambda>p. pf_userId p = Some u) (profiles db)"

definition getAllProfiles :: "Db \<Rightarrow> Profile list" where
  "getAllProfiles db = profiles db"

definition getProject :: "Db \<Rightarrow> ident \<Rightarrow> Project option" where
  "getProject db i = find (\<lambda>p. pj_id p = i) (projects db)"

definition getProjectsByVibeCoder :: "Db \<Rightarrow> ident \<Rightarrow> Project list" where
  "getProjectsByVibeCoder db v = filter (\<lambda>p. pj_vibeCodeId p = v) (projects db)"


definition getProjectMember :: "Db \<Rightarrow> ident \<Rightarrow> ProjectMember option" where
  "getProjectMember db i = find (\<lambda>m. pm_id m = i) (projectMembers db)"

text \<open>
  updateProjectMember: \<open>update ... set(member) where id = i returning\<close>; the partial
  row the route passes holds the one key hasAccess.
\<close>

definition updateProjectMember :: "Db \<Rightarrow> ident \<Rightarrow> bool \<Rightarrow> ProjectMember option \<times> Db" where
  "updateProjectMember db i b =
     (let db' = db\<lparr>projectMembers :=
                   map (\<lambda>m. if pm_id m = i then m\<lparr>pm_hasAccess := b\<rparr> else m) (projectMembers db)\<rparr>
      in (find (\<lambda>m. pm_id m = i) (projectMembers db'), db'))"




text \<open>
  \<open>order by created_at desc\<close> puts a null time before every time. (createdAt of a
  match can be set to null through the PATCH route below; for the other tables the
  column is taken to hold its default.)
\<close>

fun nullsFirst :: "timestamp option \<Rightarrow> enat" where
  "nullsFirst None = \<infinity>"
| "nullsFirst (Some t) = enat t"

definition getMatches :: "Db \<Rightarrow> ident \<Rightarrow> Match list" where
  "getMatches db pid =
     sortDesc (\<lambda>m. nullsFirst (mt_createdAt m))
       (filter (\<lambda>m. mt_initiatorId m = pid \<or> mt_receiverId m = pid) (matches db))"

text \<open>
  The constraints of the matches table that an insert or update can violate; the
  statement then fails and the handler's catch answers 400. A \<open>varchar(20)\<close> column
  rejects a longer text unless all it has beyond 20 characters are spaces, which are
  cut off; \<open>initiator_id\<close> and \<open>receiver_id\<close> reference profiles; \<open>id\<close> is the
  primary key; no text may hold the character of code 0.
\<close>

definition storable :: "string \<Rightarrow> bool" where
  "storable s = (CHR 0x00 \<notin> set s)"

fun storableOpt :: "string option \<Rightarrow> bool" where
  "storableOpt None = True"
| "storableOpt (Some s) = storable s"

definition fits20 :: "string \<Rightarrow> bool" where
  "fits20 s = list_all (\<lambda>c. c = CHR '' '') (drop 20 s)"

definition profileIds :: "Db \<Rightarrow> ident list" where
  "profileIds db = map pf_id (profiles db)"

text \<open>
  createMatch: the insert fills id (a generated uuid, here given), createdAt (now) and
  a missing status (pending); respondedAt has no default and stays null. \<open>None\<close> is
  the insert failing on a constraint.
\<close>

definition createMatch :: "Db \<Rightarrow> ident \<Rightarrow> timestamp \<Rightarrow> InsertMatch \<Rightarrow> (Match \<times> Db) option" where
  "createMatch db newId now d =
     (let status = (case im_status d of None \<Rightarrow> ''pending'' | Some st \<Rightarrow> st);
          row = \<lparr>mt_id = newId, mt_initiatorId = im_initiatorId d,
                 mt_receiverId = im_receiverId d, mt_status = take 20 status,
                 mt_matchType = take 20 (im_matchType d), mt_matchReason = im_matchReason d,
                 mt_message = im_message d, mt_createdAt = Some now, mt_respondedAt = None\<rparr>
      in if fits20 status \<and> fits20 (im_matchType d)
            \<and> storable status \<and> storable (im_matchType d)
            \<and> storableOpt (im_matchReason d) \<and> storableOpt (im_message d)
            \<and> im_initiatorId d \<in> set (profileIds db) \<and> im_receiverId d \<in> set (profileIds db)
            \<and> newId \<notin> set (map mt_id (matches db))
         then Some (row, db\<lparr>matches := matches db @ [row]\<rparr>)
         else None)"

section \<open>AI matching service (server/aiMatchingService.ts)\<close>

record MatchCandidate =
  mc_profile :: Profile
  mc_projects :: "Project list"

text \<open>
  MatchResult. The answer of the service is not validated, so the value under
  matchScore can be any JSON value; the code uses it only as an operand of
  \<open>>= 50\<close> and of the comparator's subtraction, which both see the number the
  language converts it to. \<open>mr_matchScore\<close> is that number: a JSON number itself
  (1e999 is read as Infinity), a numeric string such as "85" or a one-element array
  such as [90] the number it denotes, a missing key or a value that denotes no number
  NaN.
\<close>

record MatchResult =
  mr_profileId :: ident
  mr_matchScore :: jsnumber
  mr_matchReason :: string
  mr_matchType :: string

text \<open>The comparator \<open>(a, b) => b.matchScore - a.matchScore\<close>.\<close>

definition byMatchScore :: "MatchResult \<Rightarrow> MatchResult \<Rightarrow> jsnumber" where
  "byMatchScore a b = jsMinus (mr_matchScore b) (mr_matchScore a)"

text \<open>
  What the call to the text-generation service can come to inside the try block:
  the request throws; the completion has no (or empty) content; \<open>JSON.parse\<close>
  throws; the parsed value cannot be used as \<open>{matches: MatchResult[]}\<close> (a
  TypeError, caught by the same handler); or it yields the array
  \<open>aiResponse.matches || []\<close>.
\<close>

datatype AiOutcome =
    CallFailed
  | NoContent
  | Unparsable
  | Malformed
  | Parsed "MatchResult list"

text \<open>
  The service is a parameter: any function of what the prompt is built from (the
  requester, the requester's projects, the candidates).
\<close>

type_synonym AiService = "Profile \<Rightarrow> Project list \<Rightarrow> MatchCandidate list \<Rightarrow> AiOutcome"

text \<open>The effects of a request handler, in the order they happen.\<close>

datatype effect =
    GetProfileByUserId ident
  | GetProjectsByVibeCoder ident
  | GetAllProfiles
  | GetMatches ident
  | OpenAiChat Profile "Project list" "MatchCandidate list"
  | GetProfile ident

definition generateMatches ::
    "AiService \<Rightarrow> Profile \<Rightarrow> Project list \<Rightarrow> MatchCandidate list \<Rightarrow> int
       \<Rightarrow> MatchResult list \<times> effect list" where
  "generateMatches ai currentUser currentUserProjects candidates limit =
     (if candidates = [] then ([], [])
      else
        (case ai currentUser currentUserProjects candidates of
           CallFailed \<Rightarrow> []
         | NoContent \<Rightarrow> []
         | Unparsable \<Rightarrow> []
         | Malformed \<Rightarrow> []
         | Parsed ms \<Rightarrow>
             slice0 limit
               (sortWith byMatchScore (filter (\<lambda>m. jsGe (mr_matchScore m) (Fin 50)) ms)),
         [OpenAiChat currentUser currentUserProjects candidates]))"

section \<open>Suggestion endpoint (server/routes.ts, GET /api/matches/suggestions/:profileId)\<close>

record SuggestRequest =
  sr_xUserId :: "string option"
  sr_claimsSub :: "string option"
  sr_profileId :: ident
  sr_role :: "string option"
  sr_limit :: "jsstring option"

text \<open>
  \<open>allowDevAuth\<close> is NODE_ENV being development or test. The isAuthenticated
  middleware has run before the handler. \<open>sr_limit\<close> is the string parseInt reads,
  \<open>None\<close> for an absent parameter (for a repeated or nested parameter that is the
  string form of the array or object; the one such value that is truthy with an empty
  string form is read as NaN, which gives the same default as a falsy limit).
\<close>

definition currentUserId :: "bool \<Rightarrow> SuggestRequest \<Rightarrow> string option" where
  "currentUserId allowDevAuth req =
     (if allowDevAuth then sr_xUserId req
      else if truthy (sr_claimsSub req) then sr_claimsSub req else None)"

definition maxResults :: "jsstring option \<Rightarrow> int" where
  "maxResults limit =
     (let parsedLimit = (if truthy limit then parseInt10 (the limit) else Some 10)
      in min (max 1 (case parsedLimit of None \<Rightarrow> 10 | Some n \<Rightarrow> n)) 20)"

text \<open>The first filter: self, the optional role filter, role compatibility.\<close>

definition roleFilter :: "Profile \<Rightarrow> ident \<Rightarrow> string option \<Rightarrow> Profile \<Rightarrow> bool" where
  "roleFilter currentProfile profileId role p =
     (if pf_id p = profileId then False
      else if truthy role \<and> pf_role p \<noteq> the role then False
      else if pf_role currentProfile = ''coder''
        then pf_role p = ''investor'' \<or> pf_role p = ''technical''
      else if pf_role currentProfile = ''investor'' then pf_role p = ''coder''
      else if pf_role currentProfile = ''technical'' then pf_role p = ''coder''
      else False)"

text \<open>The other party of each of the requester's matches.\<close>

definition existingMatchIds :: "Db \<Rightarrow> ident \<Rightarrow> ident set" where
  "existingMatchIds db profileId =
     set (map (\<lambda>m. if mt_initiatorId m = profileId then mt_receiverId m else mt_initiatorId m)
            (getMatches db profileId))"

definition candidateProfiles :: "Db \<Rightarrow> Profile \<Rightarrow> ident \<Rightarrow> string option \<Rightarrow> Profile list" where
  "candidateProfiles db currentProfile profileId role =
     filter (\<lambda>p. pf_id p \<notin> existingMatchIds db profileId)
       (filter (roleFilter currentProfile profileId role) (getAllProfiles db))"

text \<open>The heuristic score of one candidate.\<close>

definition tagsOrEmpty :: "Profile \<Rightarrow> string list" where
  "tagsOrEmpty p = (case pf_tags p of None \<Rightarrow> [] | Some ts \<Rightarrow> ts)"

definition overlap :: "Profile \<Rightarrow> Profile \<Rightarrow> nat" where
  "overlap currentProfile candidate =
     length (filter (\<lambda>tag. tag \<in> set (tagsOrEmpty currentProfile)) (tagsOrEmpty candidate))"

definition score :: "Profile \<Rightarrow> Profile \<Rightarrow> nat" where
  "score currentProfile candidate =
     overlap currentProfile candidate * 10
     + (if truthy (pf_location currentProfile)
           \<and> pf_location candidate = pf_location currentProfile then 5 else 0)"

definition rankedCandidates :: "Profile \<Rightarrow> Profile list \<Rightarrow> Profile list" where
  "rankedCandidates currentProfile cands =
     map snd (slice0 20 (sortDesc fst (map (\<lambda>c. (score currentProfile c, c)) cands)))"

definition withProjects :: "Db \<Rightarrow> Profile \<Rightarrow> MatchCandidate" where
  "withProjects db p =
     \<lparr>mc_profile = p,
      mc_projects = (if pf_role p = ''coder'' then getProjectsByVibeCoder db (pf_id p) else [])\<rparr>"

definition candidateEffects :: "Profile list \<Rightarrow> effect list" where
  "candidateEffects ps =
     map (\<lambda>p. GetProjectsByVibeCoder (pf_id p)) (filter (\<lambda>p. pf_role p = ''coder'') ps)"

definition enrich :: "Db \<Rightarrow> MatchResult \<Rightarrow> MatchResult \<times> Profile option" where
  "enrich db m = (m, getProfile db (mr_profileId m))"

text \<open>
  The handler in two parts: \<open>suggestionsFor\<close> is its body from the limit parsing
  on, for the requester's profile; \<open>suggestions\<close> is the identity checks before
  it.
\<close>

definition suggestionsFor ::
    "AiService \<Rightarrow> Db \<Rightarrow> Profile \<Rightarrow> SuggestRequest
       \<Rightarrow> (MatchResult \<times> Profile option) list reply \<times> effect list" where
  "suggestionsFor ai db currentProfile req =
     (let profileId = sr_profileId req;
          currentUserProjects =
            (if pf_role currentProfile = ''coder''
             then getProjectsByVibeCoder db profileId else []);
          ranked = rankedCandidates currentProfile
                     (candidateProfiles db currentProfile profileId (sr_role req));
          candidates = map (withProjects db) ranked;
          generated = generateMatches ai currentProfile currentUserProjects candidates
                        (maxResults (sr_limit req));
          aiMatches = fst generated
      in (Ok 200 (map (enrich db) aiMatches),
          (if pf_role currentProfile = ''coder''
           then [GetProjectsByVibeCoder profileId] else [])
          @ [GetAllProfiles, GetMatches profileId]
          @ candidateEffects ranked
          @ snd generated
          @ map (\<lambda>m. GetProfile (mr_profileId m)) aiMatches))"

definition suggestions ::
    "bool \<Rightarrow> AiService \<Rightarrow> Db \<Rightarrow> SuggestRequest
       \<Rightarrow> (MatchResult \<times> Profile option) list reply \<times> effect list" where
  "suggestions allowDevAuth ai db req =
     (if \<not> truthy (currentUserId allowDevAuth req) then (Fail 401 ''Unauthorized'', [])
      else
        let uid = the (currentUserId allowDevAuth req) in
        (case getProfileByUserId db uid of
           None \<Rightarrow> (Fail 404 ''Profile not found'', [GetProfileByUserId uid])
         | Some currentProfile \<Rightarrow>
             if pf_id currentProfile \<noteq> sr_profileId req
             then (Fail 403 ''Forbidden: Cannot access another user's suggestions'',
                   [GetProfileByUserId uid])
             else
               (case suggestionsFor ai db currentProfile req of
                  (answer, effects) \<Rightarrow> (answer, GetProfileByUserId uid # effects))))"

text \<open>
  Names for two intermediate values of the handler: the requester's projects and the
  candidate list handed to generateMatches.
\<close>

definition requesterProjects :: "Db \<Rightarrow> Profile \<Rightarrow> Project list" where
  "requesterProjects db cp =
     (if pf_role cp = ''coder'' then getProjectsByVibeCoder db (pf_id cp) else [])"

definition pipelineInput :: "Db \<Rightarrow> Profile \<Rightarrow> SuggestRequest \<Rightarrow> MatchCandidate list" where
  "pipelineInput db cp req =
     map (withProjects db)
       (rankedCandidates cp (candidateProfiles db cp (sr_profileId req) (sr_role req)))"

section \<open>Match creation and response (server/routes.ts)\<close>

text \<open>
  POST /api/matches. The body is what \<open>insertMatchSchema.parse\<close> returns, \<open>None\<close>
  when it throws.
\<close>

definition hasPendingMatch :: "Db \<Rightarrow> InsertMatch \<Rightarrow> bool" where
  "hasPendingMatch db matchData =
     list_ex (\<lambda>m.
        (mt_initiatorId m = im_initiatorId matchData \<and> mt_receiverId m = im_receiverId matchData
           \<and> mt_status m = ''pending'')
        \<or> (mt_initiatorId m = im_receiverId matchData \<and> mt_receiverId m = im_initiatorId matchData
           \<and> mt_status m = ''pending''))
       (getMatches db (im_initiatorId matchData))"

definition createMatchRoute ::
    "Db \<Rightarrow> ident \<Rightarrow> timestamp \<Rightarrow> InsertMatch option \<Rightarrow> Match reply \<times> Db" where
  "createMatchRoute db newId now body =
     (case body of
        None \<Rightarrow> (Fail 400 ''Invalid match data'', db)
      | Some matchData \<Rightarrow>
          if hasPendingMatch db matchData
          then (Fail 409 ''A pending match request already exists between these users'', db)
          else (case createMatch db newId now matchData of
                  None \<Rightarrow> (Fail 400 ''Invalid match data'', db)
                | Some (row, db') \<Rightarrow> (Ok 201 row, db')))"





















section \<open>Project members (server/routes.ts, PATCH /api/project-members/:id)\<close>

text \<open>
  The JSON value under the key hasAccess of the request body, and the schema
  \<open>z.object({hasAccess: z.boolean()})\<close>: it accepts a boolean, drops every other
  key, and throws a ZodError otherwise (\<open>None\<close>).
\<close>

datatype json = JNull | JBool bool | JNum rat | JStr string

definition updateSchema :: "json option \<Rightarrow> bool option" where
  "updateSchema v = (case v of Some (JBool b) \<Rightarrow> Some b | _ \<Rightarrow> None)"

definition patchProjectMember ::
    "Db \<Rightarrow> string option \<Rightarrow> json option \<Rightarrow> ident \<Rightarrow> ProjectMember reply \<times> Db" where
  "patchProjectMember db xUserId hasAccessValue mid =
     (if \<not> truthy xUserId then (Fail 401 ''Authentication required'', db)
      else
        (case updateSchema hasAccessValue of
           None \<Rightarrow> (Fail 400 ''Invalid request data'', db)
         | Some validated \<Rightarrow>
             (case getProjectMember db mid of
                None \<Rightarrow> (Fail 404 ''Member not found'', db)
              | Some memberToUpdate \<Rightarrow>
                  (case getProject db (pm_projectId memberToUpdate) of
                     None \<Rightarrow> (Fail 404 ''Project not found'', db)
                   | Some project \<Rightarrow>
                       if the xUserId \<noteq> pj_vibeCodeId project
                       then (Fail 403 ''Only the project owner can update member access'', db)
                       else (case updateProjectMember db mid validated of
                               (None, db') \<Rightarrow> (Fail 404 ''Member not found'', db')
                             | (Some member, db') \<Rightarrow> (Ok 200 member, db'))))))"

section \<open>Project sub-resources: the server's reads and the client's dashboard\<close>









text \<open>
  The IP value distribution of ProjectDashboard (client). valueScore arrives as a JSON
  integer or null, and is the double nearest to that integer. \<open>contributorValues\<close>
  is the object the reduce builds. A value in it is a number, or (under a key that is
  a name of \<open>Object.prototype\<close>) the text of a function joined by \<open>+\<close> with
  numbers, which converts to NaN where a number is needed: \<open>Text\<close>.
\<close>

datatype jsvalue = Number jsnumber | Text

fun toNumber :: "jsvalue \<Rightarrow> jsnumber" where
  "toNumber (Number n) = n"
| "toNumber Text = NaN"

definition scoreOrZero :: "Contribution \<Rightarrow> jsnumber" where
  "scoreOrZero c = orZero (case cn_valueScore c of None \<Rightarrow> Fin 0 | Some v \<Rightarrow> roundDouble (of_int v))"

definition totalValue :: "Contribution list \<Rightarrow> jsnumber" where
  "totalValue cs = orZero (foldl (\<lambda>sum c. jsPlus sum (scoreOrZero c)) (Fin 0) cs)"

text \<open>\<open>(acc[k] || 0) + v\<close> for an own property of the accumulator.\<close>

fun currentPlus :: "jsvalue \<Rightarrow> jsnumber \<Rightarrow> jsvalue" where
  "currentPlus (Number w) v = Number (jsPlus (orZero w) v)"
| "currentPlus Text v = Text"

fun addValue :: "ident \<Rightarrow> jsnumber \<Rightarrow> (ident \<times> jsvalue) list \<Rightarrow> (ident \<times> jsvalue) list" where
  "addValue k v [] =
     (if k = ''__proto__'' then []
      else if k \<in> set inheritedNames then [(k, Text)]
      else [(k, Number (jsPlus (Fin 0) v))])"
| "addValue k v ((k', w) # acc) =
     (if k' = k then (k', currentPlus w v) # acc else (k', w) # addValue k v acc)"

definition contributorValues :: "Contribution list \<Rightarrow> (ident \<times> jsvalue) list" where
  "contributorValues cs = foldl (\<lambda>acc c. addValue (cn_contributorId c) (scoreOrZero c) acc) [] cs"

record ContributorShare =
  sh_contributorId :: ident
  sh_percentage :: jsnumber
  sh_value :: jsvalue

definition contributorPercentages :: "Contribution list \<Rightarrow> ContributorShare list" where
  "contributorPercentages cs =
     map (\<lambda>(i, v).
            \<lparr>sh_contributorId = i,
             sh_percentage = (if jsLess (Fin 0) (totalValue cs)
                              then jsTimes (jsDivide (toNumber v) (totalValue cs)) (Fin 100)
                              else Fin 0),
             sh_value = v\<rparr>)
         (objectEntries (contributorValues cs))"




section \<open>The specification's wording, for comparison with the code\<close>

text \<open>
  Stated from the specification: two profiles are connected when some match, in any
  state, joins them in either direction.
\<close>

definition spec_connected :: "Db \<Rightarrow> ident \<Rightarrow> ident \<Rightarrow> bool" where
  "spec_connected db p q =
     list_ex (\<lambda>m. (mt_initiatorId m = p \<and> mt_receiverId m = q)
                 \<or> (mt_initiatorId m = q \<and> mt_receiverId m = p)) (matches db)"

text \<open>
  Stated from the specification: a builder (coder) is matched against investors and
  technical leads, an investor against builders, a technical lead against builders.
\<close>

definition spec_compatible :: "string \<Rightarrow> string \<Rightarrow> bool" where
  "spec_compatible requesterRole r =
     (if requesterRole = ''coder'' then r = ''investor'' \<or> r = ''technical''
      else if requesterRole = ''investor'' then r = ''coder''
      else if requesterRole = ''technical'' then r = ''coder''
      else False)"

text \<open>
  Stated from the specification: the pre-ranking score is 10 times the number of
  shared tags, plus 5 if the locations are identical non-null strings.
\<close>

definition spec_score :: "Profile \<Rightarrow> Profile \<Rightarrow> nat" where
  "spec_score requester candidate =
     10 * card (set (tagsOrEmpty candidate) \<inter> set (tagsOrEmpty requester))
     + (if pf_location candidate \<noteq> None \<and> pf_location candidate = pf_location requester
        then 5 else 0)"

text \<open>
  Stated from the specification: the displayed percentage is 0 when the scores sum to
  0, and otherwise the contributor's sum divided by the total, times 100.
\<close>

definition spec_percentage :: "int \<Rightarrow> int \<Rightarrow> rat" where
  "spec_percentage v sumAll = (if sumAll = 0 then 0 else (of_int v / of_int sumAll) * 100)"

text \<open>
  The exact sums the specification speaks of: the stored score of a contribution, a
  missing one counting as 0; the sum of one contributor's scores; and the sums of all
  contributors, each listed where the contributor first occurs.
\<close>

definition storedScore :: "Contribution \<Rightarrow> int" where
  "storedScore c = (case cn_valueScore c of None \<Rightarrow> 0 | Some v \<Rightarrow> v)"

definition valueOf :: "Contribution list \<Rightarrow> ident \<Rightarrow> int" where
  "valueOf cs k = sum_list (map storedScore (filter (\<lambda>c. cn_contributorId c = k) cs))"

fun addExact :: "ident \<Rightarrow> int \<Rightarrow> (ident \<times> int) list \<Rightarrow> (ident \<times> int) list" where
  "addExact k v [] = [(k, 0 + v)]"
| "addExact k v ((k', w) # acc) =
     (if k' = k then (k', w + v) # acc else (k', w) # addExact k v acc)"

definition exactValues :: "Contribution list \<Rightarrow> (ident \<times> int) list" where
  "exactValues cs = foldl (\<lambda>acc c. addExact (cn_contributorId c) (storedScore c) acc) [] cs"

definition asNumber :: "ident \<times> int \<Rightarrow> ident \<times> jsvalue" where
  "asNumber e = (fst e, Number (Fin (of_int (snd e))))"

section \<open>Example data\<close>

definition alice :: Profile where
  "alice = \<lparr>pf_id = ''pa'', pf_userId = Some ''ua'', pf_name = ''Alice'', pf_role = ''coder'',
            pf_location = Some ''Berlin'', pf_tags = Some [''React'', ''AI'']\<rparr>"

definition bob :: Profile where
  "bob = \<lparr>pf_id = ''pb'', pf_userId = Some ''ub'', pf_name = ''Bob'', pf_role = ''investor'',
          pf_location = Some ''Berlin'', pf_tags = Some [''AI'', ''SaaS'']\<rparr>"

definition carol :: Profile where
  "carol = \<lparr>pf_id = ''pc'', pf_userId = Some ''uc'', pf_name = ''Carol'', pf_role = ''investor'',
            pf_location = Some ''Paris'', pf_tags = Some [''Mobile'']\<rparr>"

definition dave :: Profile where
  "dave = \<lparr>pf_id = ''pd'', pf_userId = Some ''ud'', pf_name = ''Dave'', pf_role = ''technical'',
           pf_location = None, pf_tags = None\<rparr>"

definition daveToAlice :: Match where
  "daveToAlice = \<lparr>mt_id = ''m1'', mt_initiatorId = ''pd'', mt_receiverId = ''pa'',
      mt_status = ''pending'', mt_matchType = ''technical'', mt_matchReason = None,
      mt_message = None, mt_createdAt = Some 100, mt_respondedAt = None\<rparr>"

definition exampleDb :: Db where
  "exampleDb = \<lparr>profiles = [alice, bob, carol, dave], projects = [], projectMembers = [],
      codeRepositories = [], tasks = [], contributions = [], matches = [daveToAlice]\<rparr>"

definition aliceRequest :: SuggestRequest where
  "aliceRequest = \<lparr>sr_xUserId = Some ''ua'', sr_claimsSub = None, sr_profileId = ''pa'',
      sr_role = None, sr_limit = Some (units ''50'')\<rparr>"

definition bobHigh :: MatchResult where
  "bobHigh = \<lparr>mr_profileId = ''pb'', mr_matchScore = Fin 85, mr_matchReason = ''shared AI focus'',
      mr_matchType = ''investment''\<rparr>"

definition carolLow :: MatchResult where
  "carolLow = \<lparr>mr_profileId = ''pc'', mr_matchScore = Fin 40, mr_matchReason = ''weak overlap'',
      mr_matchType = ''investment''\<rparr>"

definition carolMid :: MatchResult where
  "carolMid = \<lparr>mr_profileId = ''pc'', mr_matchScore = Fin 60, mr_matchReason = ''some overlap'',
      mr_matchType = ''investment''\<rparr>"

definition carolHuge :: MatchResult where
  "carolHuge = \<lparr>mr_profileId = ''pc'', mr_matchScore = PosInf, mr_matchReason = ''score 1e999'',
      mr_matchType = ''investment''\<rparr>"

definition bobUnscored :: MatchResult where
  "bobUnscored = \<lparr>mr_profileId = ''pb'', mr_matchScore = NaN, mr_matchReason = ''no score'',
      mr_matchType = ''investment''\<rparr>"

definition hugeAi :: AiService where
  "hugeAi cu ps cands = Parsed [bobUnscored, carolMid, bobHigh, carolHuge]"

definition aliceRequestTwo :: SuggestRequest where
  "aliceRequestTwo = \<lparr>sr_xUserId = Some ''ua'', sr_claimsSub = None, sr_profileId = ''pa'',
      sr_role = None, sr_limit = Some (units ''2'')\<rparr>"

definition scoringAi :: AiService where
  "scoringAi cu ps cands = Parsed [carolLow, carolMid, bobHigh]"

definition failingAi :: AiService where
  "failingAi cu ps cands = CallFailed"

definition bobAsksForAlice :: SuggestRequest where
  "bobAsksForAlice = \<lparr>sr_xUserId = None, sr_claimsSub = Some ''ub'', sr_profileId = ''pa'',
      sr_role = None, sr_limit = None\<rparr>"

definition selfHigh :: MatchResult where
  "selfHigh = \<lparr>mr_profileId = ''pa'', mr_matchScore = Fin 90, mr_matchReason = ''same person'',
      mr_matchType = ''collaboration''\<rparr>"

definition daveHigh :: MatchResult where
  "daveHigh = \<lparr>mr_profileId = ''pd'', mr_matchScore = Fin 80, mr_matchReason = ''already connected'',
      mr_matchType = ''technical''\<rparr>"

definition strayAi :: AiService where
  "strayAi cu ps cands = Parsed [selfHigh, daveHigh]"

definition nowhereCoder :: Profile where
  "nowhereCoder = \<lparr>pf_id = ''pn'', pf_userId = Some ''un'', pf_name = ''Nora'', pf_role = ''coder'',
      pf_location = Some [], pf_tags = Some [''AI'']\<rparr>"

definition nowhereInvestor :: Profile where
  "nowhereInvestor = \<lparr>pf_id = ''pi'', pf_userId = Some ''ui'', pf_name = ''Ivan'',
      pf_role = ''investor'', pf_location = Some [], pf_tags = None\<rparr>"

definition repeatingInvestor :: Profile where
  "repeatingInvestor = \<lparr>pf_id = ''pr'', pf_userId = Some ''ur'', pf_name = ''Rita'',
      pf_role = ''investor'', pf_location = None, pf_tags = Some [''AI'', ''AI'']\<rparr>"

definition aliceToDave :: InsertMatch where
  "aliceToDave = \<lparr>im_initiatorId = ''pa'', im_receiverId = ''pd'', im_status = None,
      im_matchType = ''technical'', im_matchReason = None, im_message = Some ''hello''\<rparr>"

definition aliceToBob :: InsertMatch where
  "aliceToBob = \<lparr>im_initiatorId = ''pa'', im_receiverId = ''pb'', im_status = None,
      im_matchType = ''investment'', im_matchReason = None, im_message = None\<rparr>"






definition aliceProject :: Project where
  "aliceProject = \<lparr>pj_id = ''j1'', pj_name = ''Shop'', pj_vibeCodeId = ''pa''\<rparr>"

definition daveMember :: ProjectMember where
  "daveMember = \<lparr>pm_id = ''x1'', pm_projectId = ''j1'', pm_profileId = ''pd'',
      pm_role = ''technical'', pm_compensationType = ''ownership'',
      pm_compensationAmount = None, pm_ownershipPercentage = Some 5,
      pm_hasAccess = False, pm_joinedAt = 10\<rparr>"

definition bobMember :: ProjectMember where
  "bobMember = \<lparr>pm_id = ''x2'', pm_projectId = ''j1'', pm_profileId = ''pb'',
      pm_role = ''investor'', pm_compensationType = ''money'',
      pm_compensationAmount = Some 1000, pm_ownershipPercentage = None,
      pm_hasAccess = True, pm_joinedAt = 20\<rparr>"

definition daveTask :: Task where
  "daveTask = \<lparr>tk_id = ''t1'', tk_projectId = ''j1'', tk_title = ''Set up CI'',
      tk_assignedTo = Some ''pd'', tk_createdBy = ''pa'', tk_status = ''todo'',
      tk_createdAt = 30\<rparr>"

definition ownerTask :: Task where
  "ownerTask = \<lparr>tk_id = ''t2'', tk_projectId = ''j1'', tk_title = ''Pitch deck'',
      tk_assignedTo = Some ''pa'', tk_createdBy = ''pa'', tk_status = ''todo'',
      tk_createdAt = 40\<rparr>"

definition aliceRepo :: CodeRepository where
  "aliceRepo = \<lparr>cr_id = ''r1'', cr_projectId = ''j1'', cr_uploadedBy = ''pa'',
      cr_name = ''shop-api'', cr_uploadedAt = 50\<rparr>"

definition aliceWork :: Contribution where
  "aliceWork = \<lparr>cn_id = ''c1'', cn_projectId = ''j1'', cn_contributorId = ''pa'',
      cn_valueScore = Some 30, cn_createdAt = 60\<rparr>"

definition daveWork :: Contribution where
  "daveWork = \<lparr>cn_id = ''c2'', cn_projectId = ''j1'', cn_contributorId = ''pd'',
      cn_valueScore = Some 10, cn_createdAt = 70\<rparr>"

definition daveUnscored :: Contribution where
  "daveUnscored = \<lparr>cn_id = ''c3'', cn_projectId = ''j1'', cn_contributorId = ''pd'',
      cn_valueScore = None, cn_createdAt = 80\<rparr>"

definition daveDebit :: Contribution where
  "daveDebit = \<lparr>cn_id = ''c4'', cn_projectId = ''j1'', cn_contributorId = ''pd'',
      cn_valueScore = Some (- 5), cn_createdAt = 90\<rparr>"

definition bobWork :: Contribution where
  "bobWork = \<lparr>cn_id = ''c5'', cn_projectId = ''j2'', cn_contributorId = ''pb'',
      cn_valueScore = Some 7, cn_createdAt = 95\<rparr>"

definition carolWork :: Contribution where
  "carolWork = \<lparr>cn_id = ''c6'', cn_projectId = ''j2'', cn_contributorId = ''pc'',
      cn_valueScore = Some 18, cn_createdAt = 96\<rparr>"

definition projectDb :: Db where
  "projectDb = \<lparr>profiles = [alice, bob, carol, dave], projects = [aliceProject],
      projectMembers = [daveMember, bobMember], codeRepositories = [aliceRepo],
      tasks = [daveTask, ownerTask], contributions = [aliceWork, daveWork, daveUnscored],
      matches = []\<rparr>"

section \<open>Facts about the helpers\<close>

lemma set_insertDesc: "set (insertDesc f x xs) = insert x (set xs)"
  by (induction xs) auto

lemma set_sortDesc: "set (sortDesc f xs) = set xs"
  by (induction xs) (auto simp: set_insertDesc)

lemma sorted_insertDesc:
  "sorted_wrt (\<lambda>a b. f b \<le> f a) xs \<Longrightarrow> sorted_wrt (\<lambda>a b. f b \<le> f a) (insertDesc f x xs)"
  by (induction xs) (auto simp: set_insertDesc)

lemma sorted_sortDesc: "sorted_wrt (\<lambda>a b. f b \<le> f a) (sortDesc f xs)"
  by (induction xs) (auto simp: sorted_insertDesc)

lemma mset_insertDesc: "mset (insertDesc f x xs) = add_mset x (mset xs)"
  by (induction xs) auto

lemma mset_sortDesc: "mset (sortDesc f xs) = mset xs"
  by (induction xs) (auto simp: mset_insertDesc)

lemma length_sortDesc: "length (sortDesc f xs) = length xs"
  using mset_sortDesc [of f xs] by (metis size_mset)

lemma set_slice0: "set (slice0 n xs) \<subseteq> set xs"
  by (auto simp: slice0_def dest: in_set_takeD)

lemma sorted_slice0: "sorted_wrt P xs \<Longrightarrow> sorted_wrt P (slice0 n xs)"
  by (simp add: slice0_def sorted_wrt_take)

lemma length_slice0: "0 \<le> n \<Longrightarrow> length (slice0 n xs) \<le> nat n"
  by (simp add: slice0_def)

lemma maxResults_range: "1 \<le> maxResults q \<and> maxResults q \<le> 20"
  by (simp add: maxResults_def Let_def split: option.splits)

lemma set_insertWith: "set (insertWith cmp x xs) = insert x (set xs)"
  by (induction xs) auto

lemma set_sortWith: "set (sortWith cmp xs) = set xs"
  by (induction xs) (auto simp: set_insertWith)

lemma jsPositive_minus: "a \<noteq> NaN \<Longrightarrow> b \<noteq> NaN \<Longrightarrow> jsPositive (jsMinus b a) = jsLess a b"
  by (cases a; cases b) (simp_all add: jsPositive_def)

lemma jsLess_asym: "jsLess a b \<Longrightarrow> \<not> jsLess b a"
  by (cases a; cases b) simp_all

lemma jsLess_cotrans:
  "a \<noteq> NaN \<Longrightarrow> b \<noteq> NaN \<Longrightarrow> c \<noteq> NaN \<Longrightarrow> \<not> jsLess a b \<Longrightarrow> \<not> jsLess b c \<Longrightarrow> \<not> jsLess a c"
  by (cases a; cases b; cases c) simp_all

lemma jsGe_not_less: "jsGe a b \<Longrightarrow> \<not> jsLess a b \<and> a \<noteq> NaN"
  by (simp add: jsGe_def)

lemma sorted_insertWith:
  assumes "sorted_wrt (\<lambda>a b. \<not> jsLess (mr_matchScore a) (mr_matchScore b)) xs"
    and "\<forall>m \<in> set (x # xs). mr_matchScore m \<noteq> NaN"
  shows "sorted_wrt (\<lambda>a b. \<not> jsLess (mr_matchScore a) (mr_matchScore b))
           (insertWith byMatchScore x xs)"
  using assms
proof (induction xs)
  case Nil
  then show ?case by simp
next
  case (Cons y ys)
  from Cons.prems(2) have nn: "mr_matchScore x \<noteq> NaN" "mr_matchScore y \<noteq> NaN"
    "\<forall>m \<in> set ys. mr_matchScore m \<noteq> NaN"
    by simp_all
  have p: "jsPositive (byMatchScore x y) = jsLess (mr_matchScore x) (mr_matchScore y)"
    using nn by (simp add: byMatchScore_def jsPositive_minus)
  show ?case
  proof (cases "jsLess (mr_matchScore x) (mr_matchScore y)")
    case True
    from Cons.prems(1) have s: "sorted_wrt (\<lambda>a b. \<not> jsLess (mr_matchScore a) (mr_matchScore b)) ys"
      and h: "\<forall>z \<in> set ys. \<not> jsLess (mr_matchScore y) (mr_matchScore z)"
      by simp_all
    from Cons.IH [OF s] nn
    have "sorted_wrt (\<lambda>a b. \<not> jsLess (mr_matchScore a) (mr_matchScore b)) (insertWith byMatchScore x ys)"
      by simp
    with True h jsLess_asym [OF True] show ?thesis
      by (simp add: p set_insertWith)
  next
    case False
    from Cons.prems(1) have h: "\<forall>z \<in> set ys. \<not> jsLess (mr_matchScore y) (mr_matchScore z)"
      by simp
    have "\<forall>z \<in> set ys. \<not> jsLess (mr_matchScore x) (mr_matchScore z)"
      using jsLess_cotrans [OF nn(1) nn(2) _ False] h nn(3) by blast
    with False Cons.prems(1) show ?thesis
      by (simp add: p)
  qed
qed

lemma sorted_sortWith:
  assumes "\<forall>m \<in> set xs. mr_matchScore m \<noteq> NaN"
  shows "sorted_wrt (\<lambda>a b. \<not> jsLess (mr_matchScore a) (mr_matchScore b)) (sortWith byMatchScore xs)"
  using assms
proof (induction xs)
  case Nil
  then show ?case by simp
next
  case (Cons x xs)
  then have "sorted_wrt (\<lambda>a b. \<not> jsLess (mr_matchScore a) (mr_matchScore b)) (sortWith byMatchScore xs)"
    by simp
  from sorted_insertWith [OF this, of x] Cons.prems show ?case
    by (simp add: set_sortWith)
qed

lemma dropWhile_all: "\<forall>c \<in> set ws. P c \<Longrightarrow> dropWhile P (ws @ t) = dropWhile P t"
  by (induction ws) simp_all

lemma takeWhile_run:
  "\<forall>d \<in> set ds. P d \<Longrightarrow> rest = [] \<or> \<not> P (hd rest) \<Longrightarrow> takeWhile P (ds @ rest) = ds"
  by (induction ds) (auto simp: takeWhile_eq_Nil_iff)

lemma parseInt10_decimal:
  assumes w: "\<forall>c \<in> set ws. isWhite c"
    and s: "sg = [] \<or> sg = [43] \<or> sg = [45]"
    and n: "ds \<noteq> []" and d: "\<forall>c \<in> set ds. isDigit c"
    and r: "rest = [] \<or> \<not> isDigit (hd rest)"
  shows "parseInt10 (ws @ sg @ ds @ rest)
           = Some ((if sg = [45] then - 1 else 1) * foldl (\<lambda>a c. 10 * a + digitVal c) 0 ds)"
proof -
  from n obtain d0 ds' where ds: "ds = d0 # ds'" by (cases ds) auto
  with d have d0: "isDigit d0" by simp
  then have d0w: "\<not> isWhite d0" "d0 \<noteq> 45" "d0 \<noteq> 43"
    by (auto simp: isDigit_def isWhite_def)
  have sw: "\<not> isWhite 45" "\<not> isWhite 43" "\<not> isDigit 45" "\<not> isDigit 43"
    by (simp_all add: isWhite_def isDigit_def)
  have t: "dropWhile isWhite (ws @ sg @ ds @ rest) = sg @ ds @ rest"
    using s d0w sw by (auto simp: dropWhile_all [OF w] ds)
  have run: "takeWhile isDigit (ds @ rest) = ds"
    using takeWhile_run [OF d r] .
  from s show ?thesis
  proof (elim disjE)
    assume "sg = []"
    then show ?thesis
      using t run n d0w by (simp add: parseInt10_def Let_def ds)
  next
    assume "sg = [43]"
    then show ?thesis
      using t run n by (simp add: parseInt10_def Let_def)
  next
    assume "sg = [45]"
    then show ?thesis
      using t run n by (simp add: parseInt10_def Let_def)
  qed
qed

lemma bits_upper: "n < 2 ^ bits n"
proof (induction n rule: bits.induct)
  case (1 n)
  show ?case
  proof (cases "n = 0")
    case True
    then show ?thesis by (simp add: bits.simps)
  next
    case False
    with 1 have "n div 2 < 2 ^ bits (n div 2)" by simp
    then have "n < 2 * 2 ^ bits (n div 2)" by linarith
    with False show ?thesis by (simp add: bits.simps [of n])
  qed
qed

lemma bits_lower: "0 < n \<Longrightarrow> 2 ^ (bits n - 1) \<le> n"
proof (induction n rule: bits.induct)
  case (1 n)
  then have n: "n \<noteq> 0" by simp
  show ?case
  proof (cases "n div 2 = 0")
    case True
    with n have "bits n = 1" by (simp add: bits.simps [of n] bits.simps [of 0])
    with 1(2) show ?thesis by simp
  next
    case False
    with 1 n have "2 ^ (bits (n div 2) - 1) \<le> n div 2" by simp
    moreover from False have "0 < bits (n div 2)" by (simp add: bits.simps [of "n div 2"])
    ultimately have "2 ^ bits (n div 2) \<le> 2 * (n div 2)"
      by (cases "bits (n div 2)") simp_all
    then have "2 ^ bits (n div 2) \<le> n" by linarith
    with n show ?thesis by (simp add: bits.simps [of n])
  qed
qed

lemma bits_pos: "0 < n \<Longrightarrow> 0 < bits n"
  by (simp add: bits.simps [of n])

lemma pow2_pos: "0 < pow2 e"
  by (simp add: pow2_def)

lemma pow2_add: "pow2 (a + b) = pow2 a * pow2 b"
proof -
  have "pow2 e = 2 powi e" for e
    by (simp add: pow2_def power_int_def field_simps)
  then show ?thesis by (simp add: power_int_add)
qed

lemma pow2_nat: "pow2 (int n) = 2 ^ n"
  by (simp add: pow2_def)

lemma pow2_neg: "pow2 (- int n) = 1 / 2 ^ n"
  by (auto simp: pow2_def)

lemma pow2_mono: "a \<le> b \<Longrightarrow> pow2 a \<le> pow2 b"
proof -
  assume "a \<le> b"
  then obtain n where "b = a + int n" by (metis zle_iff_zadd)
  then have "pow2 b = pow2 a * 2 ^ n" by (simp add: pow2_add pow2_nat)
  moreover have "(1::rat) \<le> 2 ^ n" by simp
  ultimately show ?thesis using pow2_pos [of a] by (simp add: mult_le_cancel_left1)
qed

text \<open>exponentOf brackets a positive number between two powers of 2\<close>

lemma nat_less_pow: "(n::nat) < 2 ^ k \<Longrightarrow> (of_nat n :: rat) + 1 \<le> 2 ^ k"
proof -
  assume "n < 2 ^ k"
  then have "n + 1 \<le> 2 ^ k" by simp
  then have "(of_nat (n + 1) :: rat) \<le> of_nat (2 ^ k)" by (simp only: of_nat_le_iff)
  then show ?thesis by simp
qed

lemma nat_pow_le: "2 ^ k \<le> (n::nat) \<Longrightarrow> (2::rat) ^ k \<le> of_nat n"
proof -
  assume "2 ^ k \<le> n"
  then have "(of_nat (2 ^ k) :: rat) \<le> of_nat n" by (simp only: of_nat_le_iff)
  then show ?thesis by simp
qed

lemma exponentOf_bounds:
  assumes "0 < a"
  shows "pow2 (exponentOf a) \<le> a \<and> a < pow2 (exponentOf a + 1)"
proof (cases "1 \<le> a")
  case True
  define n where "n = nat \<lfloor>a\<rfloor>"
  from True have n: "0 < n" by (simp add: n_def)
  from True have "of_nat n = (of_int \<lfloor>a\<rfloor> :: rat)" by (simp add: n_def)
  then have fl: "of_nat n \<le> a" "a < of_nat n + 1" by linarith+
  have e: "exponentOf a = int (bits n) - 1"
    using True by (simp add: exponentOf_def n_def)
  from bits_pos [OF n] have e': "exponentOf a = int (bits n - 1)" "exponentOf a + 1 = int (bits n)"
    by (simp_all add: e)
  from nat_pow_le [OF bits_lower [OF n]] fl(1) have "(2::rat) ^ (bits n - 1) \<le> a"
    by (rule order_trans)
  then have lo: "pow2 (exponentOf a) \<le> a" by (simp only: e'(1) pow2_nat)
  from nat_less_pow [OF bits_upper [of n]] fl(2) have "a < 2 ^ bits n" by linarith
  then have "a < pow2 (exponentOf a + 1)" by (simp only: e'(2) pow2_nat)
  with lo show ?thesis ..
next
  case False
  define m where "m = \<lceil>1 / a\<rceil>"
  define n where "n = nat (m - 1)"
  define k where "k = bits n"
  from False assms have inv: "1 < 1 / a" by (simp add: field_simps)
  then have m2: "2 \<le> m" by (simp add: m_def le_ceiling_iff)
  then have n: "0 < n" by (simp add: n_def)
  from m2 have nm: "(of_nat n :: rat) = of_int m - 1" by (simp add: n_def)
  have e: "exponentOf a = - int k" using False by (simp add: exponentOf_def k_def n_def m_def)
  have cl: "1 / a \<le> of_int m" "of_int m - 1 < 1 / a"
    unfolding m_def by linarith+
  from nat_less_pow [OF bits_upper [of n]] nm cl(1) have "1 / a \<le> 2 ^ k"
    unfolding k_def by linarith
  with assms have "1 \<le> a * 2 ^ k" by (simp add: field_simps)
  then have lo: "1 / 2 ^ k \<le> a" by (simp add: field_simps)
  from nat_pow_le [OF bits_lower [OF n]] nm cl(2) have "(2::rat) ^ (k - 1) < 1 / a"
    unfolding k_def by linarith
  with assms have "a * 2 ^ (k - 1) < 1" by (simp add: field_simps)
  then have hi: "a < 1 / 2 ^ (k - 1)" by (simp add: field_simps)
  from bits_pos [OF n] have "- int k + 1 = - int (k - 1)" by (simp add: k_def)
  then have "pow2 (exponentOf a + 1) = 1 / 2 ^ (k - 1)" by (simp only: e pow2_neg)
  with lo hi show ?thesis by (simp add: e pow2_neg)
qed

lemma roundHalfEven_int: "roundHalfEven (of_int n) = n"
  by (simp add: roundHalfEven_def)

lemma roundHalfEven_near: "\<bar>of_int (roundHalfEven x) - x\<bar> \<le> 1 / 2"
proof -
  have "of_int \<lfloor>x\<rfloor> \<le> x" "x < of_int \<lfloor>x\<rfloor> + 1" by linarith+
  then show ?thesis by (auto simp: roundHalfEven_def Let_def)
qed


lemma pow2_less_cancel: "pow2 a < pow2 b \<Longrightarrow> a < b"
  using pow2_mono [of b a] by (cases "a < b") simp_all

lemma pow2_minus: "pow2 (a - b) = pow2 a / pow2 b"
proof -
  have "pow2 a = pow2 (a - b) * pow2 b" using pow2_add [of "a - b" b] by simp
  then show ?thesis using pow2_pos [of b] by simp
qed

text \<open>In the normal range the rounding is by the unit of the number's own exponent.\<close>

lemma pow2_double: "2 * pow2 e = pow2 (e + 1)"
proof -
  have "pow2 1 = 2" by (simp add: pow2_def)
  with pow2_add [of e 1] show ?thesis by simp
qed

lemma roundDouble_normal:
  assumes lo: "pow2 (- 1022) \<le> \<bar>q\<bar>" and hi: "\<bar>q\<bar> \<le> pow2 1022"
  shows "\<exists>r. roundDouble q = Fin (if 0 < q then r else - r)
           \<and> r = of_int (roundHalfEven (\<bar>q\<bar> / pow2 (exponentOf \<bar>q\<bar> - 52))) * pow2 (exponentOf \<bar>q\<bar> - 52)
           \<and> \<bar>r - \<bar>q\<bar>\<bar> \<le> \<bar>q\<bar> / 2 ^ 53"
proof -
  define a where "a = \<bar>q\<bar>"
  define e where "e = exponentOf a"
  define ulp where "ulp = pow2 (e - 52)"
  define r where "r = of_int (roundHalfEven (a / ulp)) * ulp"
  define top where "top = pow2 1024"
  from lo pow2_pos [of "- 1022"] have a0: "0 < a" unfolding a_def by linarith
  then have q0: "q \<noteq> 0" by (auto simp: a_def)
  from exponentOf_bounds [OF a0] have b: "pow2 e \<le> a" "a < pow2 (e + 1)" by (simp_all add: e_def)
  from lo b(2) have "pow2 (- 1022) < pow2 (e + 1)" unfolding a_def by linarith
  then have "- 1022 < e + 1" by (rule pow2_less_cancel)
  then have m: "max e (- 1022) = e" by simp
  have u0: "0 < ulp" by (simp add: ulp_def pow2_pos)
  have "\<bar>of_int (roundHalfEven (a / ulp)) - a / ulp\<bar> \<le> 1 / 2" by (rule roundHalfEven_near)
  then have "\<bar>of_int (roundHalfEven (a / ulp)) - a / ulp\<bar> * ulp \<le> 1 / 2 * ulp"
    using u0 by (simp only: mult_le_cancel_right) simp
  moreover have "\<bar>of_int (roundHalfEven (a / ulp)) - a / ulp\<bar> * ulp = \<bar>r - a\<bar>"
  proof -
    have "\<bar>of_int (roundHalfEven (a / ulp)) - a / ulp\<bar> * ulp
            = \<bar>(of_int (roundHalfEven (a / ulp)) - a / ulp) * ulp\<bar>"
      using u0 by (simp add: abs_mult)
    also have "(of_int (roundHalfEven (a / ulp)) - a / ulp) * ulp = r - a"
      using u0 by (simp add: r_def left_diff_distrib)
    finally show ?thesis .
  qed
  ultimately have near: "\<bar>r - a\<bar> \<le> ulp / 2" by simp
  have "ulp = pow2 e / pow2 52" by (simp only: ulp_def pow2_minus)
  also have "pow2 52 = 2 ^ 52" using pow2_nat [of 52] by simp
  finally have ulp: "ulp = pow2 e / 2 ^ 52" .
  have "ulp / 2 = pow2 e / 2 ^ 53" by (simp add: ulp)
  also have "\<dots> \<le> a / 2 ^ 53" using b(1) by (simp add: divide_le_cancel)
  finally have half: "ulp / 2 \<le> a / 2 ^ 53" .
  with near have err: "\<bar>r - a\<bar> \<le> a / 2 ^ 53" by simp
  have "a / 2 ^ 53 \<le> a" using a0 by (simp add: field_simps)
  with err have "r \<le> 2 * a" by linarith
  also have "\<dots> \<le> 2 * pow2 1022" using hi unfolding a_def by linarith
  also have "\<dots> = pow2 1023" using pow2_double [of 1022] by simp
  also have "\<dots> < 2 * pow2 1023" using pow2_pos [of 1023] by linarith
  also have "\<dots> = top" using pow2_double [of 1023] by (simp add: top_def)
  finally have r1: "\<not> top \<le> r" by simp
  have "roundDouble q = Fin (if 0 < q then r else - r)"
    using q0 r1 m unfolding roundDouble_def Let_def top_def r_def ulp_def e_def a_def
    by (simp only: if_False)
  with err show ?thesis unfolding r_def ulp_def e_def a_def by blast
qed


lemma pow2_zero: "pow2 0 = 1"
  by (simp add: pow2_def)

lemma roundDouble_near:
  assumes "pow2 (- 1022) \<le> \<bar>q\<bar>" and "\<bar>q\<bar> \<le> pow2 1022"
  shows "\<exists>r. roundDouble q = Fin r \<and> \<bar>r - q\<bar> \<le> \<bar>q\<bar> / 2 ^ 53"
proof -
  from roundDouble_normal [OF assms] obtain r where
    r: "roundDouble q = Fin (if 0 < q then r else - r)" and e: "\<bar>r - \<bar>q\<bar>\<bar> \<le> \<bar>q\<bar> / 2 ^ 53"
    by blast
  show ?thesis
  proof (cases "0 < q")
    case True
    with r e show ?thesis by auto
  next
    case False
    then have "\<bar>- r - q\<bar> = \<bar>r - \<bar>q\<bar>\<bar>" by simp
    with r e False show ?thesis by auto
  qed
qed

lemma int_abs_ge1: "k \<noteq> 0 \<Longrightarrow> (1::rat) \<le> \<bar>of_int k\<bar>"
proof -
  assume "k \<noteq> 0"
  then have "1 \<le> \<bar>k\<bar>" by simp
  then have "(of_int 1 :: rat) \<le> of_int \<bar>k\<bar>" by (simp only: of_int_le_iff)
  then show ?thesis by simp
qed

lemma int_abs_le53: "\<bar>k\<bar> \<le> 2 ^ 53 \<Longrightarrow> \<bar>of_int k :: rat\<bar> \<le> 2 ^ 53"
proof -
  assume "\<bar>k\<bar> \<le> 2 ^ 53"
  then have "(of_int \<bar>k\<bar> :: rat) \<le> of_int (2 ^ 53)" by (simp only: of_int_le_iff)
  then show ?thesis by simp
qed

text \<open>An integer of at most 53 bits is a double.\<close>

lemma roundDouble_int:
  assumes "\<bar>k\<bar> \<le> 2 ^ 53"
  shows "roundDouble (of_int k) = Fin (of_int k)"
proof (cases "k = 0")
  case True
  then show ?thesis by (simp add: roundDouble_def)
next
  case False
  define q :: rat where "q = of_int k"
  define a where "a = \<bar>q\<bar>"
  define e where "e = exponentOf a"
  from False have a1: "1 \<le> a" unfolding a_def q_def by (rule int_abs_ge1)
  from assms have a53: "a \<le> 2 ^ 53" unfolding a_def q_def by (rule int_abs_le53)
  have p53: "pow2 53 = 2 ^ 53" using pow2_nat [of 53] by simp
  have lo: "pow2 (- 1022) \<le> \<bar>q\<bar>"
    using pow2_mono [of "- 1022" 0] a1 by (simp add: pow2_zero a_def)
  have hi: "\<bar>q\<bar> \<le> pow2 1022"
    using pow2_mono [of 53 1022] a53 by (simp add: p53 a_def)
  from roundDouble_normal [OF lo hi] obtain r where
    r: "roundDouble q = Fin (if 0 < q then r else - r)"
    and rr: "r = of_int (roundHalfEven (a / pow2 (e - 52))) * pow2 (e - 52)"
    unfolding a_def e_def by blast
  from a1 have a0: "0 < a" by simp
  from exponentOf_bounds [OF a0] have b: "pow2 e \<le> a" "a < pow2 (e + 1)" by (simp_all add: e_def)
  from a1 b(2) have "pow2 0 < pow2 (e + 1)" by (simp add: pow2_zero)
  then have e0: "0 \<le> e" using pow2_less_cancel [of 0 "e + 1"] by simp
  from b(1) a53 have "pow2 e < pow2 54" using pow2_double [of 53] pow2_pos [of 53] by (simp add: p53)
  then have e53: "e \<le> 53" using pow2_less_cancel [of e 54] by simp
  have "r = a"
  proof (cases "e = 53")
    case True
    with b(1) a53 have a: "a = 2 ^ 53" by (simp add: p53)
    have "pow2 (e - 52) = 2" using True by (simp add: pow2_def)
    moreover have "a / 2 = of_int (2 ^ 52)" by (simp add: a)
    ultimately show ?thesis by (simp only: rr roundHalfEven_int)
  next
    case False
    with e53 have le: "e \<le> 52" by simp
    define n where "n = nat (52 - e)"
    have "pow2 (e - 52) = 1 / 2 ^ n" using le pow2_neg [of n] by (simp add: n_def)
    moreover have "a / (1 / 2 ^ n) = of_int (\<bar>k\<bar> * 2 ^ n)" by (simp add: a_def q_def)
    ultimately show ?thesis by (simp only: rr roundHalfEven_int) (simp add: a_def q_def)
  qed
  with r have "roundDouble q = Fin q" by (auto simp: a_def)
  then show ?thesis by (simp only: q_def)
qed

text \<open>The computed percentage is within one part in \<open>2 ^ 51\<close> of the exact one.\<close>

lemma percentage_near:
  assumes T: "0 < T" "T \<le> 2 ^ 53" and v: "\<bar>v\<bar> \<le> 2 ^ 53"
  shows "\<exists>p. jsTimes (jsDivide (Fin (of_int v)) (Fin (of_int T))) (Fin 100) = Fin p
           \<and> \<bar>p - of_int v / of_int T * 100\<bar> \<le> \<bar>of_int v / of_int T * 100\<bar> / 2 ^ 51"
proof (cases "v = 0")
  case True
  with T show ?thesis by (simp add: roundDouble_def)
next
  case False
  define q :: rat where "q = of_int v / of_int T"
  define x where "x = q * 100"
  have p53: "pow2 53 = 2 ^ 53" using pow2_nat [of 53] by simp
  have m53: "pow2 (- 53) = 1 / 2 ^ 53" using pow2_neg [of 53] by simp
  from T have T1: "(1::rat) \<le> of_int T" by simp
  from T have T53: "(of_int T :: rat) \<le> 2 ^ 53"
    using int_abs_le53 [of T] by simp
  from False have v1: "(1::rat) \<le> \<bar>of_int v\<bar>" by (rule int_abs_ge1)
  from v have v53: "\<bar>of_int v :: rat\<bar> \<le> 2 ^ 53" by (rule int_abs_le53)
  have aq: "\<bar>q\<bar> = \<bar>of_int v\<bar> / of_int T" using T by (simp add: q_def)
  have "1 / 2 ^ 53 \<le> \<bar>of_int v :: rat\<bar> / of_int T"
    using v1 T53 T1 by (simp add: frac_le)
  then have qlo: "1 / 2 ^ 53 \<le> \<bar>q\<bar>" by (simp only: aq)
  have "\<bar>of_int v :: rat\<bar> / of_int T \<le> 2 ^ 53 / 1"
    using v53 T1 by (intro frac_le) simp_all
  then have qhi: "\<bar>q\<bar> \<le> 2 ^ 53" by (simp add: aq)
  have lo: "pow2 (- 1022) \<le> \<bar>q\<bar>"
    using pow2_mono [of "- 1022" "- 53"] qlo by (simp add: m53)
  have hi: "\<bar>q\<bar> \<le> pow2 1022"
    using pow2_mono [of 53 1022] qhi by (simp add: p53)
  from roundDouble_near [OF lo hi] obtain r where
    r: "roundDouble q = Fin r" and re: "\<bar>r - q\<bar> \<le> \<bar>q\<bar> / 2 ^ 53"
    by blast
  have small: "\<bar>q\<bar> / 2 ^ 53 \<le> \<bar>q\<bar> / 2" by (simp add: field_simps)
  from re small have rlo: "\<bar>q\<bar> / 2 \<le> \<bar>r\<bar>" and rhi: "\<bar>r\<bar> \<le> 2 * \<bar>q\<bar>" by linarith+
  define y where "y = r * 100"
  have ay: "\<bar>y\<bar> = \<bar>r\<bar> * 100" by (simp add: y_def abs_mult)
  have p54: "pow2 (- 54) = 1 / 2 ^ 54" using pow2_neg [of 54] by simp
  have p61: "pow2 61 = 2 ^ 61" using pow2_nat [of 61] by simp
  from rlo qlo have "1 / 2 ^ 54 \<le> \<bar>r\<bar>" by simp
  then have "1 / 2 ^ 54 \<le> \<bar>y\<bar>" unfolding ay by linarith
  then have ylo: "pow2 (- 1022) \<le> \<bar>y\<bar>"
    using pow2_mono [of "- 1022" "- 54"] by (simp add: p54)
  from rhi qhi have "\<bar>r\<bar> \<le> 2 ^ 54" by simp
  then have "\<bar>y\<bar> \<le> 2 ^ 61" unfolding ay by simp
  then have yhi: "\<bar>y\<bar> \<le> pow2 1022"
    using pow2_mono [of 61 1022] by (simp add: p61)
  from roundDouble_near [OF ylo yhi] obtain p where
    p: "roundDouble y = Fin p" and pe: "\<bar>p - y\<bar> \<le> \<bar>y\<bar> / 2 ^ 53"
    by blast
  have ax: "\<bar>x\<bar> = \<bar>q\<bar> * 100" by (simp add: x_def abs_mult)
  have yx0: "y - x = (r - q) * 100" by (simp add: x_def y_def left_diff_distrib)
  have "\<bar>y - x\<bar> = \<bar>r - q\<bar> * \<bar>100\<bar>" unfolding yx0 by (rule abs_mult)
  then have "\<bar>y - x\<bar> = \<bar>r - q\<bar> * 100" by (simp only: abs_numeral)
  with re have yx: "\<bar>y - x\<bar> \<le> \<bar>x\<bar> / 2 ^ 53" by (simp add: ax)
  from rhi have "\<bar>y\<bar> \<le> 2 * \<bar>x\<bar>" by (simp add: ax ay)
  then have "\<bar>y\<bar> / 2 ^ 53 \<le> 2 * \<bar>x\<bar> / 2 ^ 53" by (simp add: divide_le_cancel)
  with pe yx have "\<bar>p - x\<bar> \<le> 3 * \<bar>x\<bar> / 2 ^ 53" by linarith
  also have "\<dots> \<le> \<bar>x\<bar> / 2 ^ 51" by simp
  finally have "\<bar>p - x\<bar> \<le> \<bar>x\<bar> / 2 ^ 51" .
  moreover have "jsTimes (jsDivide (Fin (of_int v)) (Fin (of_int T))) (Fin 100) = Fin p"
    using T r p by (simp add: q_def y_def)
  ultimately show ?thesis unfolding x_def q_def by blast
qed

text \<open>Rounding a given number: its exponent and the nearest multiple of the unit.\<close>

lemma exponentOf_unique:
  assumes "pow2 e \<le> a" and "a < pow2 (e + 1)"
  shows "exponentOf a = e"
proof -
  from assms(1) pow2_pos [of e] have "0 < a" by linarith
  from exponentOf_bounds [OF this]
  have "pow2 (exponentOf a) \<le> a" "a < pow2 (exponentOf a + 1)" by simp_all
  with assms have l: "pow2 e < pow2 (exponentOf a + 1)" and r: "pow2 (exponentOf a) < pow2 (e + 1)"
    by linarith+
  from l have "e < exponentOf a + 1" by (rule pow2_less_cancel)
  moreover from r have "exponentOf a < e + 1" by (rule pow2_less_cancel)
  ultimately show ?thesis by simp
qed

lemma roundHalfEven_unique:
  assumes "\<bar>of_int m - x\<bar> < 1 / 2"
  shows "roundHalfEven x = m"
proof (cases "of_int m \<le> x")
  case True
  with assms have "of_int m \<le> x" "x < of_int m + 1" by linarith+
  then have f: "\<lfloor>x\<rfloor> = m" by (simp add: floor_unique)
  from assms True show ?thesis by (simp add: roundHalfEven_def f)
next
  case False
  with assms have "of_int (m - 1) \<le> x" "x < of_int (m - 1) + 1" by simp_all
  then have f: "\<lfloor>x\<rfloor> = m - 1" by (rule floor_unique)
  from assms False show ?thesis by (simp add: roundHalfEven_def f)
qed

lemma roundDouble_eval:
  assumes "pow2 e \<le> q" and "q < pow2 (e + 1)" and "- 1022 \<le> e" and "e < 1022"
    and "\<bar>of_int m - q / pow2 (e - 52)\<bar> < 1 / 2"
  shows "roundDouble q = Fin (of_int m * pow2 (e - 52))"
proof -
  from assms(1) pow2_pos [of e] have q: "0 < q" by linarith
  then have aq: "\<bar>q\<bar> = q" by simp
  from assms(1,3) pow2_mono [of "- 1022" e] have lo: "pow2 (- 1022) \<le> \<bar>q\<bar>" by (simp add: aq)
  from assms(2,4) pow2_mono [of "e + 1" 1022] have hi: "\<bar>q\<bar> \<le> pow2 1022" by (simp add: aq)
  from roundDouble_normal [OF lo hi] q
  have "roundDouble q
          = Fin (of_int (roundHalfEven (q / pow2 (exponentOf q - 52))) * pow2 (exponentOf q - 52))"
    by (auto simp: aq)
  then show ?thesis
    by (simp only: exponentOf_unique [OF assms(1,2)] roundHalfEven_unique [OF assms(5)])
qed

section \<open>The suggestion pipeline\<close>

lemma generateMatches_cases:
  "fst (generateMatches ai cu ps cands n) = [] \<or>
   (\<exists>ms. ai cu ps cands = Parsed ms \<and> cands \<noteq> [] \<and>
      fst (generateMatches ai cu ps cands n)
        = slice0 n (sortWith byMatchScore (filter (\<lambda>m. jsGe (mr_matchScore m) (Fin 50)) ms)))"
  by (cases "ai cu ps cands") (simp_all add: generateMatches_def)

lemma generateMatches_props:
  assumes "0 \<le> n"
  shows "(\<forall>m \<in> set (fst (generateMatches ai cu ps cands n)). jsGe (mr_matchScore m) (Fin 50))
       \<and> sorted_wrt (\<lambda>a b. \<not> jsLess (mr_matchScore a) (mr_matchScore b))
           (fst (generateMatches ai cu ps cands n))
       \<and> length (fst (generateMatches ai cu ps cands n)) \<le> nat n"
proof -
  consider (empty) "fst (generateMatches ai cu ps cands n) = []"
    | (parsed) ms where "fst (generateMatches ai cu ps cands n)
        = slice0 n (sortWith byMatchScore (filter (\<lambda>m. jsGe (mr_matchScore m) (Fin 50)) ms))"
    using generateMatches_cases [of ai cu ps cands n] by blast
  then show ?thesis
  proof cases
    case empty
    then show ?thesis by simp
  next
    case parsed
    let ?kept = "filter (\<lambda>m. jsGe (mr_matchScore m) (Fin 50)) ms"
    have "set (slice0 n (sortWith byMatchScore ?kept)) \<subseteq> {m. jsGe (mr_matchScore m) (Fin 50)}"
      using set_slice0 [of n "sortWith byMatchScore ?kept"]
      by (auto simp: set_sortWith)
    moreover have "\<forall>m \<in> set ?kept. mr_matchScore m \<noteq> NaN"
      by (simp add: jsGe_def)
    ultimately show ?thesis
      using parsed assms
      by (auto simp: sorted_slice0 sorted_sortWith length_slice0)
  qed
qed

lemma suggestionsFor_reply:
  "pf_id cp = sr_profileId req \<Longrightarrow>
   fst (suggestionsFor ai db cp req)
     = Ok 200 (map (enrich db)
         (fst (generateMatches ai cp (requesterProjects db cp) (pipelineInput db cp req)
            (maxResults (sr_limit req)))))"
  by (simp add: suggestionsFor_def Let_def pipelineInput_def requesterProjects_def)

lemma suggestions_reached:
  assumes "currentUserId dev req = Some uid" "uid \<noteq> []" "getProfileByUserId db uid = Some cp"
    "pf_id cp = sr_profileId req"
  shows "suggestions dev ai db req
           = (fst (suggestionsFor ai db cp req), GetProfileByUserId uid # snd (suggestionsFor ai db cp req))"
  using assms by (simp add: suggestions_def split: prod.splits)

lemma suggestions_Ok:
  assumes "suggestions dev ai db req = (Ok c results, effs)"
  shows "\<exists>uid cp. currentUserId dev req = Some uid \<and> uid \<noteq> [] \<and> getProfileByUserId db uid = Some cp
           \<and> pf_id cp = sr_profileId req
           \<and> Ok c results = fst (suggestionsFor ai db cp req)"
proof (cases "currentUserId dev req")
  case None
  with assms show ?thesis by (simp add: suggestions_def)
next
  case (Some uid)
  show ?thesis
  proof (cases "uid = []")
    case True
    with Some assms show ?thesis by (simp add: suggestions_def)
  next
    case False
    show ?thesis
    proof (cases "getProfileByUserId db uid")
      case None
      with Some False assms show ?thesis by (simp add: suggestions_def)
    next
      case (Some cp)
      show ?thesis
      proof (cases "pf_id cp = sr_profileId req")
        case True
        from suggestions_reached [OF \<open>currentUserId dev req = Some uid\<close> False Some True, of ai] assms
        have "Ok c results = fst (suggestionsFor ai db cp req)" by simp
        with \<open>currentUserId dev req = Some uid\<close> False Some True show ?thesis by blast
      next
        case neq: False
        with \<open>currentUserId dev req = Some uid\<close> False Some assms show ?thesis
          by (simp add: suggestions_def)
      qed
    qed
  qed
qed

text \<open>The example request, step by step.\<close>

lemma ex_user: "currentUserId True aliceRequest = Some ''ua''"
  by (simp add: currentUserId_def aliceRequest_def)

lemma ex_profile: "getProfileByUserId exampleDb ''ua'' = Some alice"
  by (simp add: getProfileByUserId_def exampleDb_def alice_def)

lemma ex_alice_id: "pf_id alice = sr_profileId aliceRequest"
  by (simp add: alice_def aliceRequest_def)

lemma ex_pipelineInput:
  "pipelineInput exampleDb alice aliceRequest
     = [\<lparr>mc_profile = bob, mc_projects = []\<rparr>, \<lparr>mc_profile = carol, mc_projects = []\<rparr>]"
  by (simp add: pipelineInput_def rankedCandidates_def candidateProfiles_def roleFilter_def
      existingMatchIds_def getMatches_def getAllProfiles_def withProjects_def score_def overlap_def
      tagsOrEmpty_def slice0_def alice_def bob_def carol_def dave_def daveToAlice_def exampleDb_def
      aliceRequest_def)

lemma ex_projects: "requesterProjects exampleDb alice = []"
  by (simp add: requesterProjects_def getProjectsByVibeCoder_def exampleDb_def)

lemma ex_maxResults: "maxResults (sr_limit aliceRequest) = 20"
  by (simp add: aliceRequest_def units_def maxResults_def parseInt10_def isWhite_def isDigit_def
      digitVal_def)

lemma ex_generate:
  "fst (generateMatches scoringAi alice []
          [\<lparr>mc_profile = bob, mc_projects = []\<rparr>, \<lparr>mc_profile = carol, mc_projects = []\<rparr>] 20)
     = [bobHigh, carolMid]"
  by (simp add: generateMatches_def scoringAi_def slice0_def jsGe_def jsPositive_def
      byMatchScore_def bobHigh_def carolLow_def carolMid_def)

lemma ex_enrich:
  "map (enrich exampleDb) [bobHigh, carolMid] = [(bobHigh, Some bob), (carolMid, Some carol)]"
  by (simp add: enrich_def getProfile_def exampleDb_def bobHigh_def carolMid_def alice_def bob_def carol_def)

lemma ex_suggestions:
  "fst (suggestions True scoringAi exampleDb aliceRequest)
     = Ok 200 [(bobHigh, Some bob), (carolMid, Some carol)]"
  using suggestions_reached [OF ex_user _ ex_profile ex_alice_id, of scoringAi]
    suggestionsFor_reply [OF ex_alice_id, of scoringAi exampleDb]
  by (simp add: ex_pipelineInput ex_projects ex_maxResults ex_generate ex_enrich del: map_eq_Cons_conv list.map)

lemma maxResults_default:
  "maxResults None = 10 \<and> (\<forall>s. parseInt10 s = None \<longrightarrow> maxResults (Some s) = 10)"
  by (simp add: maxResults_def)

lemma maxResults_clamp:
  assumes "parseInt10 s = Some n"
  shows "maxResults (Some s) = min (max 1 n) 20"
proof -
  from assms have "s \<noteq> []" by (auto simp: parseInt10_def)
  with assms show ?thesis by (simp add: maxResults_def)
qed

lemma ex_maxResults_two: "maxResults (sr_limit aliceRequestTwo) = 2"
  by (simp add: aliceRequestTwo_def units_def maxResults_def parseInt10_def isWhite_def isDigit_def
      digitVal_def)

lemma ex_two_id: "pf_id alice = sr_profileId aliceRequestTwo"
  by (simp add: alice_def aliceRequestTwo_def)

lemma ex_two_user: "currentUserId True aliceRequestTwo = Some ''ua''"
  by (simp add: currentUserId_def aliceRequestTwo_def)

lemma ex_two_input:
  "pipelineInput exampleDb alice aliceRequestTwo = pipelineInput exampleDb alice aliceRequest"
  by (simp add: pipelineInput_def aliceRequestTwo_def aliceRequest_def)

lemma ex_huge_generate:
  "fst (generateMatches hugeAi alice []
          [\<lparr>mc_profile = bob, mc_projects = []\<rparr>, \<lparr>mc_profile = carol, mc_projects = []\<rparr>] 2)
     = [carolHuge, bobHigh]"
  by (simp add: generateMatches_def hugeAi_def slice0_def jsGe_def jsPositive_def byMatchScore_def
      bobHigh_def carolMid_def carolHuge_def bobUnscored_def)

lemma ex_huge_enrich:
  "map (enrich exampleDb) [carolHuge, bobHigh] = [(carolHuge, Some carol), (bobHigh, Some bob)]"
  by (simp add: enrich_def getProfile_def exampleDb_def bobHigh_def carolHuge_def alice_def bob_def
      carol_def)

lemma ex_huge_suggestions:
  "fst (suggestions True hugeAi exampleDb aliceRequestTwo)
     = Ok 200 [(carolHuge, Some carol), (bobHigh, Some bob)]"
  using suggestions_reached [OF ex_two_user _ ex_profile ex_two_id, of hugeAi]
    suggestionsFor_reply [OF ex_two_id, of hugeAi exampleDb]
  by (simp add: ex_two_input ex_pipelineInput ex_projects ex_maxResults_two ex_huge_generate
      ex_huge_enrich del: map_eq_Cons_conv list.map)

text \<open>
  C3. Whatever the external scoring step answers, a successful reply of the suggestion
  endpoint holds no result whose matchScore compares below 50 (every kept score
  compares as at least 50), is in descending matchScore order and has at most
  maxResults elements; when the service's answer parses to the array ms, the reply is
  exactly the entries of ms whose matchScore is at least 50, sorted descending
  (stably) and cut to the first maxResults. maxResults is 10 when the limit
  parameter is absent or parseInt reads no number from it, and otherwise the number
  parseInt reads, raised to 1 and lowered to 20; so it lies in [1, 20] and the reply
  never has more than 20 elements.
\<close>

theorem suggestions_postfilter:
  assumes "suggestions dev ai db req = (Ok c results, effs)"
  shows "(\<forall>r \<in> set results. jsGe (mr_matchScore (fst r)) (Fin 50)
                          \<and> \<not> jsLess (mr_matchScore (fst r)) (Fin 50))
       \<and> sorted_wrt (\<lambda>a b. \<not> jsLess (mr_matchScore (fst a)) (mr_matchScore (fst b))) results
       \<and> int (length results) \<le> maxResults (sr_limit req)
       \<and> 1 \<le> maxResults (sr_limit req) \<and> maxResults (sr_limit req) \<le> 20
       \<and> length results \<le> 20
       \<and> (\<exists>uid cp. currentUserId dev req = Some uid \<and> getProfileByUserId db uid = Some cp
            \<and> (\<forall>ms. ai cp (requesterProjects db cp) (pipelineInput db cp req) = Parsed ms
                      \<and> pipelineInput db cp req \<noteq> []
                  \<longrightarrow> results = map (enrich db)
                        (take (nat (maxResults (sr_limit req)))
                           (sortWith byMatchScore
                              (filter (\<lambda>m. jsGe (mr_matchScore m) (Fin 50)) ms)))))
       \<and> maxResults None = 10
       \<and> (\<forall>s. parseInt10 s = None \<longrightarrow> maxResults (Some s) = 10)
       \<and> (\<forall>s n. parseInt10 s = Some n \<longrightarrow> maxResults (Some s) = min (max 1 n) 20)
       \<and> (\<forall>ws sg ds rest.
             (\<forall>c \<in> set ws. isWhite c) \<and> (sg = [] \<or> sg = [43] \<or> sg = [45]) \<and> ds \<noteq> []
             \<and> (\<forall>c \<in> set ds. isDigit c) \<and> (rest = [] \<or> \<not> isDigit (hd rest))
           \<longrightarrow> parseInt10 (ws @ sg @ ds @ rest)
                 = Some ((if sg = [45] then - 1 else 1)
                         * foldl (\<lambda>a c. 10 * a + digitVal c) 0 ds))"
proof -
  let ?n = "maxResults (sr_limit req)"
  from suggestions_Ok [OF assms] obtain uid cp where
    u: "currentUserId dev req = Some uid" and p: "getProfileByUserId db uid = Some cp"
    and i: "pf_id cp = sr_profileId req" and r: "Ok c results = fst (suggestionsFor ai db cp req)"
    by blast
  let ?g = "fst (generateMatches ai cp (requesterProjects db cp) (pipelineInput db cp req) ?n)"
  have res: "results = map (enrich db) ?g"
    using r suggestionsFor_reply [OF i, of ai db] by simp
  have n: "1 \<le> ?n" "?n \<le> 20"
    using maxResults_range [of "sr_limit req"] by simp_all
  then have n0: "0 \<le> ?n" by simp
  note g = generateMatches_props [OF n0, of ai cp "requesterProjects db cp" "pipelineInput db cp req"]
  have fst_enrich: "\<And>m. fst (enrich db m) = m" by (simp add: enrich_def)
  have a: "\<forall>r \<in> set results. jsGe (mr_matchScore (fst r)) (Fin 50)
                          \<and> \<not> jsLess (mr_matchScore (fst r)) (Fin 50)"
    using g jsGe_not_less by (auto simp: res fst_enrich)
  have b: "sorted_wrt (\<lambda>a b. \<not> jsLess (mr_matchScore (fst a)) (mr_matchScore (fst b))) results"
    using g by (simp add: res sorted_wrt_map fst_enrich)
  have len: "length results \<le> nat ?n" using g by (simp add: res)
  have c1: "int (length results) \<le> ?n" using len n0 by linarith
  have c2: "length results \<le> 20" using len n by linarith
  have d: "\<forall>ms. ai cp (requesterProjects db cp) (pipelineInput db cp req) = Parsed ms
                      \<and> pipelineInput db cp req \<noteq> []
             \<longrightarrow> results = map (enrich db)
                   (take (nat ?n) (sortWith byMatchScore
                                     (filter (\<lambda>m. jsGe (mr_matchScore m) (Fin 50)) ms)))"
    using n0 by (simp add: res generateMatches_def slice0_def)
  from u p d have e: "\<exists>uid cp. currentUserId dev req = Some uid \<and> getProfileByUserId db uid = Some cp
            \<and> (\<forall>ms. ai cp (requesterProjects db cp) (pipelineInput db cp req) = Parsed ms
                      \<and> pipelineInput db cp req \<noteq> []
                  \<longrightarrow> results = map (enrich db)
                        (take (nat ?n) (sortWith byMatchScore
                                          (filter (\<lambda>m. jsGe (mr_matchScore m) (Fin 50)) ms))))"
    by blast
  have f: "\<forall>s n. parseInt10 s = Some n \<longrightarrow> maxResults (Some s) = min (max 1 n) 20"
    using maxResults_clamp by blast
  have h: "\<forall>ws sg ds rest.
             (\<forall>c \<in> set ws. isWhite c) \<and> (sg = [] \<or> sg = [43] \<or> sg = [45]) \<and> ds \<noteq> []
             \<and> (\<forall>c \<in> set ds. isDigit c) \<and> (rest = [] \<or> \<not> isDigit (hd rest))
           \<longrightarrow> parseInt10 (ws @ sg @ ds @ rest)
                 = Some ((if sg = [45] then - 1 else 1)
                         * foldl (\<lambda>a c. 10 * a + digitVal c) 0 ds)"
    using parseInt10_decimal by blast
  from a b c1 n c2 e maxResults_default f h show ?thesis by blast
qed

theorem suggestions_postfilter_witness:
  "fst (suggestions True hugeAi exampleDb aliceRequestTwo)
     = Ok 200 [(carolHuge, Some carol), (bobHigh, Some bob)]
   \<and> jsGe (mr_matchScore carolHuge) (Fin 50) \<and> jsGe (mr_matchScore bobHigh) (Fin 50)
   \<and> jsGe (mr_matchScore carolMid) (Fin 50) \<and> mr_matchScore bobUnscored = NaN
   \<and> maxResults (sr_limit aliceRequestTwo) = 2
   \<and> maxResults (Some (units ''50'')) = 20
   \<and> maxResults (Some (units ''-3'')) = 1
   \<and> maxResults (Some (units ''abc'')) = 10
   \<and> maxResults (Some [0xA0, 53]) = 5
   \<and> fst (suggestions True scoringAi exampleDb aliceRequest)
     = Ok 200 [(bobHigh, Some bob), (carolMid, Some carol)]
   \<and> jsLess (mr_matchScore carolLow) (Fin 50)"
proof -
  have eq: "suggestions True hugeAi exampleDb aliceRequestTwo
              = (Ok 200 [(carolHuge, Some carol), (bobHigh, Some bob)],
                 snd (suggestions True hugeAi exampleDb aliceRequestTwo))"
    using ex_huge_suggestions by (metis prod.collapse)
  note th = suggestions_postfilter [OF eq]
  from th have "\<forall>r \<in> set [(carolHuge, Some carol), (bobHigh, Some bob)].
                   jsGe (mr_matchScore (fst r)) (Fin 50)"
    by blast
  then have k: "jsGe (mr_matchScore carolHuge) (Fin 50) \<and> jsGe (mr_matchScore bobHigh) (Fin 50)"
    by simp
  from th have cl: "\<forall>s n. parseInt10 s = Some n \<longrightarrow> maxResults (Some s) = min (max 1 n) 20"
    and df: "\<forall>s. parseInt10 s = None \<longrightarrow> maxResults (Some s) = 10"
    by blast+
  have p50: "parseInt10 (units ''50'') = Some 50"
    and pm3: "parseInt10 (units ''-3'') = Some (- 3)"
    and pabc: "parseInt10 (units ''abc'') = None"
    and pnb: "parseInt10 [0xA0, 53] = Some 5"
    by (simp_all add: units_def parseInt10_def isWhite_def isDigit_def digitVal_def)
  from cl p50 have m50: "maxResults (Some (units ''50'')) = 20" by fastforce
  from cl pm3 have mm3: "maxResults (Some (units ''-3'')) = 1" by fastforce
  from df pabc have mabc: "maxResults (Some (units ''abc'')) = 10" by blast
  from cl pnb have mnb: "maxResults (Some [0xA0, 53]) = 5" by fastforce
  have o: "jsGe (mr_matchScore carolMid) (Fin 50) \<and> mr_matchScore bobUnscored = NaN
           \<and> jsLess (mr_matchScore carolLow) (Fin 50)"
    by (simp add: jsGe_def carolMid_def bobUnscored_def carolLow_def)
  from k o m50 mm3 mabc mnb ex_huge_suggestions ex_maxResults_two ex_suggestions
  show ?thesis by blast
qed

text \<open>
  C8. When the call to the text-generation service throws, returns no content, or
  returns content that JSON.parse rejects, generateMatches returns the empty list; and
  a request that has passed the identity checks is then answered 200 with an empty
  list, not with an error.
\<close>

theorem generateMatches_fail_soft:
  assumes "ai cu ps cands = CallFailed \<or> ai cu ps cands = NoContent \<or> ai cu ps cands = Unparsable"
  shows "fst (generateMatches ai cu ps cands n) = []
       \<and> (currentUserId dev req = Some uid \<and> uid \<noteq> [] \<and> getProfileByUserId db uid = Some cu
            \<and> pf_id cu = sr_profileId req \<and> ps = requesterProjects db cu
            \<and> cands = pipelineInput db cu req
          \<longrightarrow> fst (suggestions dev ai db req) = Ok 200 [])"
proof -
  have g: "\<And>k. fst (generateMatches ai cu ps cands k) = []"
    using assms by (auto simp: generateMatches_def)
  have "fst (suggestions dev ai db req) = Ok 200 []"
    if h: "currentUserId dev req = Some uid" "uid \<noteq> []" "getProfileByUserId db uid = Some cu"
      "pf_id cu = sr_profileId req" "ps = requesterProjects db cu" "cands = pipelineInput db cu req"
    using suggestions_reached [OF h(1-4), of ai] suggestionsFor_reply [OF h(4), of ai db]
      g [of "maxResults (sr_limit req)"] h(5,6)
    by simp
  with g show ?thesis by blast
qed

theorem generateMatches_fail_soft_witness:
  "failingAi alice [] (pipelineInput exampleDb alice aliceRequest) = CallFailed
   \<and> fst (generateMatches failingAi alice [] (pipelineInput exampleDb alice aliceRequest) 20) = []
   \<and> fst (suggestions True failingAi exampleDb aliceRequest) = Ok 200 []"
proof -
  have f: "failingAi alice [] (pipelineInput exampleDb alice aliceRequest) = CallFailed"
    by (simp add: failingAi_def)
  have u: "''ua'' \<noteq> []" by simp
  from generateMatches_fail_soft [of failingAi alice "[]" "pipelineInput exampleDb alice aliceRequest"
      20 True aliceRequest "''ua''" exampleDb]
    f ex_user ex_profile ex_alice_id ex_projects u
  show ?thesis by simp
qed

text \<open>
  C9. When the caller is identified and has a profile whose id differs from the
  profileId path parameter, the suggestion endpoint answers 403 and has done nothing
  but look that profile up: no candidate query, no match query, no call to the
  scoring service.
\<close>

theorem suggestions_forbidden:
  assumes "currentUserId dev req = Some uid" and "uid \<noteq> []"
    and "getProfileByUserId db uid = Some cp" and "pf_id cp \<noteq> sr_profileId req"
  shows "suggestions dev ai db req
           = (Fail 403 ''Forbidden: Cannot access another user's suggestions'',
              [GetProfileByUserId uid])"
  using assms by (simp add: suggestions_def)

theorem suggestions_forbidden_witness:
  "currentUserId False bobAsksForAlice = Some ''ub''
   \<and> getProfileByUserId exampleDb ''ub'' = Some bob
   \<and> pf_id bob \<noteq> sr_profileId bobAsksForAlice
   \<and> suggestions False scoringAi exampleDb bobAsksForAlice
        = (Fail 403 ''Forbidden: Cannot access another user's suggestions'',
           [GetProfileByUserId ''ub''])"
proof -
  have u: "currentUserId False bobAsksForAlice = Some ''ub''"
    by (simp add: currentUserId_def bobAsksForAlice_def)
  have p: "getProfileByUserId exampleDb ''ub'' = Some bob"
    by (simp add: getProfileByUserId_def exampleDb_def alice_def bob_def)
  have i: "pf_id bob \<noteq> sr_profileId bobAsksForAlice"
    by (simp add: bob_def bobAsksForAlice_def)
  have e: "''ub'' \<noteq> []" by simp
  from suggestions_forbidden [OF u e p i, of scoringAi] u p i show ?thesis by simp
qed

section \<open>Candidate filtering and pre-ranking\<close>

lemma insertDesc_keyed:
  "insertDesc fst (f x, x) (map (\<lambda>c. (f c, c)) xs) = map (\<lambda>c. (f c, c)) (insertDesc f x xs)"
  by (induction xs) auto

lemma sortDesc_keyed:
  "sortDesc fst (map (\<lambda>c. (f c, c)) xs) = map (\<lambda>c. (f c, c)) (sortDesc f xs)"
  by (induction xs) (simp_all add: insertDesc_keyed)

lemma rankedCandidates_take:
  "rankedCandidates cp cands = take 20 (sortDesc (score cp) cands)"
  by (simp add: rankedCandidates_def slice0_def sortDesc_keyed take_map o_def)

lemma set_rankedCandidates: "set (rankedCandidates cp cands) \<subseteq> set cands"
  using set_take_subset [of 20 "sortDesc (score cp) cands"]
  by (simp add: rankedCandidates_take set_sortDesc)

lemma sorted_wrt_take_drop:
  "sorted_wrt P xs \<Longrightarrow> x \<in> set (take n xs) \<Longrightarrow> y \<in> set (drop n xs) \<Longrightarrow> P x y"
  using sorted_wrt_append [of P "take n xs" "drop n xs"] by simp

lemma overlap_distinct:
  assumes "distinct (tagsOrEmpty c)"
  shows "overlap cp c = card (set (tagsOrEmpty c) \<inter> set (tagsOrEmpty cp))"
proof -
  let ?kept = "filter (\<lambda>tag. tag \<in> set (tagsOrEmpty cp)) (tagsOrEmpty c)"
  have "distinct ?kept" using assms by simp
  from distinct_card [OF this] have "card (set ?kept) = overlap cp c"
    by (simp only: overlap_def)
  moreover have "set ?kept = set (tagsOrEmpty c) \<inter> set (tagsOrEmpty cp)"
    by auto
  ultimately show ?thesis by simp
qed

lemma connected_existing:
  assumes "spec_connected db p q"
  shows "q \<in> existingMatchIds db p"
proof -
  from assms obtain m where m: "m \<in> set (matches db)"
    and c: "(mt_initiatorId m = p \<and> mt_receiverId m = q) \<or> (mt_initiatorId m = q \<and> mt_receiverId m = p)"
    by (auto simp: spec_connected_def list_ex_iff)
  from m c have g: "m \<in> set (getMatches db p)"
    by (auto simp: getMatches_def set_sortDesc)
  from c have "(if mt_initiatorId m = p then mt_receiverId m else mt_initiatorId m) = q"
    by auto
  with g show ?thesis
    unfolding existingMatchIds_def by force
qed

lemma roleFilter_spec:
  assumes "roleFilter cp pid role p"
  shows "pf_id p \<noteq> pid \<and> spec_compatible (pf_role cp) (pf_role p)
       \<and> (truthy role \<longrightarrow> Some (pf_role p) = role)"
proof -
  from assms have a: "pf_id p \<noteq> pid"
    by (simp add: roleFilter_def split: if_splits)
  from assms have b: "\<not> (truthy role \<and> pf_role p \<noteq> the role)"
    by (simp add: roleFilter_def split: if_splits)
  from assms a b have c: "spec_compatible (pf_role cp) (pf_role p)"
    by (simp add: roleFilter_def spec_compatible_def split: if_splits)
  from b have "truthy role \<longrightarrow> Some (pf_role p) = role"
    by (cases role) auto
  with a c show ?thesis by blast
qed

lemma candidateProfiles_props:
  assumes "p \<in> set (candidateProfiles db cp pid role)"
  shows "p \<in> set (profiles db) \<and> pf_id p \<noteq> pid \<and> \<not> spec_connected db pid (pf_id p)
       \<and> spec_compatible (pf_role cp) (pf_role p) \<and> (truthy role \<longrightarrow> Some (pf_role p) = role)"
proof -
  from assms have m: "p \<in> set (profiles db)" and r: "roleFilter cp pid role p"
    and e: "pf_id p \<notin> existingMatchIds db pid"
    by (simp_all add: candidateProfiles_def getAllProfiles_def)
  from e connected_existing [of db pid "pf_id p"] have "\<not> spec_connected db pid (pf_id p)" by blast
  with m roleFilter_spec [OF r] show ?thesis by blast
qed

lemma pipelineInput_props:
  assumes "c \<in> set (pipelineInput db cp req)"
  shows "mc_profile c \<in> set (profiles db) \<and> pf_id (mc_profile c) \<noteq> sr_profileId req
       \<and> \<not> spec_connected db (sr_profileId req) (pf_id (mc_profile c))
       \<and> spec_compatible (pf_role cp) (pf_role (mc_profile c))
       \<and> (truthy (sr_role req) \<longrightarrow> Some (pf_role (mc_profile c)) = sr_role req)"
proof -
  from assms obtain p where p: "p \<in> set (rankedCandidates cp (candidateProfiles db cp (sr_profileId req) (sr_role req)))"
    and c: "c = withProjects db p"
    by (auto simp: pipelineInput_def)
  from c have mp: "mc_profile c = p" by (simp add: withProjects_def)
  from p set_rankedCandidates have "p \<in> set (candidateProfiles db cp (sr_profileId req) (sr_role req))"
    by blast
  from candidateProfiles_props [OF this] mp show ?thesis by simp
qed

lemma length_pipelineInput: "length (pipelineInput db cp req) \<le> 20"
  by (simp add: pipelineInput_def rankedCandidates_take)

lemma find_unique:
  "distinct (map f xs) \<Longrightarrow> x \<in> set xs \<Longrightarrow> find (\<lambda>y. f y = f x) xs = Some x"
  by (induction xs) (auto simp: rev_image_eqI)

lemma ex_distinct_ids: "distinct (map pf_id (profiles exampleDb))"
  by (simp add: exampleDb_def alice_def bob_def carol_def dave_def)

lemma ex_stray_generate:
  "fst (generateMatches strayAi alice []
          [\<lparr>mc_profile = bob, mc_projects = []\<rparr>, \<lparr>mc_profile = carol, mc_projects = []\<rparr>] 20)
     = [selfHigh, daveHigh]"
  by (simp add: generateMatches_def strayAi_def slice0_def jsGe_def jsPositive_def
      byMatchScore_def selfHigh_def daveHigh_def)

lemma ex_stray_enrich:
  "map (enrich exampleDb) [selfHigh, daveHigh] = [(selfHigh, Some alice), (daveHigh, Some dave)]"
  by (simp add: enrich_def getProfile_def exampleDb_def selfHigh_def daveHigh_def
      alice_def bob_def carol_def dave_def)

lemma ex_dave_connected: "spec_connected exampleDb ''pa'' ''pd''"
  by (simp add: spec_connected_def exampleDb_def daveToAlice_def)

text \<open>
  C1, as stated, fails: the reply is built from the ids the scoring service returns,
  and these are not checked against the candidates. A service that names the
  requester, or a profile the requester already has a match with, gets both into the
  result list.
\<close>

theorem suggestions_results_counterexample:
  "fst (suggestions True strayAi exampleDb aliceRequest)
     = Ok 200 [(selfHigh, Some alice), (daveHigh, Some dave)]
   \<and> mr_profileId selfHigh = sr_profileId aliceRequest
   \<and> \<not> spec_compatible (pf_role alice) (pf_role alice)
   \<and> mr_profileId daveHigh = pf_id dave
   \<and> spec_connected exampleDb (sr_profileId aliceRequest) (pf_id dave)"
proof -
  have r: "fst (suggestions True strayAi exampleDb aliceRequest)
             = Ok 200 [(selfHigh, Some alice), (daveHigh, Some dave)]"
    using suggestions_reached [OF ex_user _ ex_profile ex_alice_id, of strayAi]
      suggestionsFor_reply [OF ex_alice_id, of strayAi exampleDb]
    by (simp add: ex_pipelineInput ex_projects ex_maxResults ex_stray_generate ex_stray_enrich
          del: map_eq_Cons_conv list.map)
  have "mr_profileId selfHigh = sr_profileId aliceRequest"
    by (simp add: selfHigh_def aliceRequest_def)
  moreover have "\<not> spec_compatible (pf_role alice) (pf_role alice)"
    by (simp add: spec_compatible_def alice_def)
  moreover have "mr_profileId daveHigh = pf_id dave"
    by (simp add: daveHigh_def dave_def)
  moreover have "spec_connected exampleDb (sr_profileId aliceRequest) (pf_id dave)"
    using ex_dave_connected by (simp add: aliceRequest_def dave_def)
  ultimately show ?thesis using r by simp
qed

text \<open>
  C1, amended. For a successful reply to the requester P: every candidate handed to
  the pre-ranked scoring step is a stored profile other than P, has no match with P
  in either direction and in any state, has a role compatible with P's role, and has
  the role of the role filter when one is given (a non-empty string). If profile ids
  are unique and the scoring service names only candidates it was given, the same
  holds for every entry of the result list, whose profile is then the candidate of
  that id.
\<close>

theorem suggestions_candidates:
  assumes "suggestions dev ai db req = (Ok c results, effs)"
  shows "\<exists>uid cp. currentUserId dev req = Some uid \<and> getProfileByUserId db uid = Some cp
           \<and> pf_id cp = sr_profileId req
           \<and> (\<forall>k \<in> set (pipelineInput db cp req).
                 mc_profile k \<in> set (profiles db)
               \<and> pf_id (mc_profile k) \<noteq> sr_profileId req
               \<and> \<not> spec_connected db (sr_profileId req) (pf_id (mc_profile k))
               \<and> spec_compatible (pf_role cp) (pf_role (mc_profile k))
               \<and> (truthy (sr_role req) \<longrightarrow> Some (pf_role (mc_profile k)) = sr_role req))
           \<and> (distinct (map pf_id (profiles db))
               \<and> (\<forall>ms. ai cp (requesterProjects db cp) (pipelineInput db cp req) = Parsed ms
                     \<longrightarrow> (\<forall>m \<in> set ms. \<exists>k \<in> set (pipelineInput db cp req).
                             pf_id (mc_profile k) = mr_profileId m))
              \<longrightarrow> (\<forall>r \<in> set results. \<exists>p.
                     snd r = Some p \<and> pf_id p = mr_profileId (fst r)
                   \<and> pf_id p \<noteq> sr_profileId req
                   \<and> \<not> spec_connected db (sr_profileId req) (pf_id p)
                   \<and> spec_compatible (pf_role cp) (pf_role p)
                   \<and> (truthy (sr_role req) \<longrightarrow> Some (pf_role p) = sr_role req)))"
proof -
  let ?n = "maxResults (sr_limit req)"
  from suggestions_Ok [OF assms] obtain uid cp where
    u: "currentUserId dev req = Some uid" and p: "getProfileByUserId db uid = Some cp"
    and i: "pf_id cp = sr_profileId req" and r: "Ok c results = fst (suggestionsFor ai db cp req)"
    by blast
  let ?in = "pipelineInput db cp req"
  let ?g = "fst (generateMatches ai cp (requesterProjects db cp) ?in ?n)"
  have res: "results = map (enrich db) ?g"
    using r suggestionsFor_reply [OF i, of ai db] by simp
  have cand: "\<forall>k \<in> set ?in.
                 mc_profile k \<in> set (profiles db)
               \<and> pf_id (mc_profile k) \<noteq> sr_profileId req
               \<and> \<not> spec_connected db (sr_profileId req) (pf_id (mc_profile k))
               \<and> spec_compatible (pf_role cp) (pf_role (mc_profile k))
               \<and> (truthy (sr_role req) \<longrightarrow> Some (pf_role (mc_profile k)) = sr_role req)"
    using pipelineInput_props [of _ db cp req] by blast
  have out: "\<forall>r \<in> set results. \<exists>p.
                     snd r = Some p \<and> pf_id p = mr_profileId (fst r)
                   \<and> pf_id p \<noteq> sr_profileId req
                   \<and> \<not> spec_connected db (sr_profileId req) (pf_id p)
                   \<and> spec_compatible (pf_role cp) (pf_role p)
                   \<and> (truthy (sr_role req) \<longrightarrow> Some (pf_role p) = sr_role req)"
    if pk: "distinct (map pf_id (profiles db))"
      and fa: "\<forall>ms. ai cp (requesterProjects db cp) ?in = Parsed ms
                 \<longrightarrow> (\<forall>m \<in> set ms. \<exists>k \<in> set ?in. pf_id (mc_profile k) = mr_profileId m)"
  proof
    fix r assume "r \<in> set results"
    then obtain m where m: "m \<in> set ?g" and rm: "r = enrich db m"
      by (auto simp: res)
    from m generateMatches_cases [of ai cp "requesterProjects db cp" ?in ?n]
    obtain ms where a: "ai cp (requesterProjects db cp) ?in = Parsed ms"
      and g: "?g = slice0 ?n (sortWith byMatchScore (filter (\<lambda>m. jsGe (mr_matchScore m) (Fin 50)) ms))"
      by auto
    from m g set_slice0 [of ?n "sortWith byMatchScore (filter (\<lambda>m. jsGe (mr_matchScore m) (Fin 50)) ms)"]
    have "m \<in> set ms" by (auto simp: set_sortWith)
    with fa a obtain k where k: "k \<in> set ?in" and kid: "pf_id (mc_profile k) = mr_profileId m"
      by blast
    from cand k have kin: "mc_profile k \<in> set (profiles db)" by blast
    from find_unique [OF pk kin] kid have "getProfile db (mr_profileId m) = Some (mc_profile k)"
      by (simp add: getProfile_def)
    then have "snd r = Some (mc_profile k)" "fst r = m"
      by (simp_all add: rm enrich_def)
    with cand k kid show "\<exists>p. snd r = Some p \<and> pf_id p = mr_profileId (fst r)
                   \<and> pf_id p \<noteq> sr_profileId req
                   \<and> \<not> spec_connected db (sr_profileId req) (pf_id p)
                   \<and> spec_compatible (pf_role cp) (pf_role p)
                   \<and> (truthy (sr_role req) \<longrightarrow> Some (pf_role p) = sr_role req)"
      by blast
  qed
  from u p i cand out show ?thesis by blast
qed

theorem suggestions_candidates_witness:
  "fst (suggestions True scoringAi exampleDb aliceRequest)
     = Ok 200 [(bobHigh, Some bob), (carolMid, Some carol)]
   \<and> distinct (map pf_id (profiles exampleDb))
   \<and> pf_id bob \<noteq> sr_profileId aliceRequest
   \<and> \<not> spec_connected exampleDb (sr_profileId aliceRequest) (pf_id bob)
   \<and> spec_compatible (pf_role alice) (pf_role bob)
   \<and> \<not> spec_connected exampleDb (sr_profileId aliceRequest) (pf_id carol)
   \<and> spec_connected exampleDb (sr_profileId aliceRequest) (pf_id dave)"
proof -
  let ?in = "pipelineInput exampleDb alice aliceRequest"
  have eq: "suggestions True scoringAi exampleDb aliceRequest
              = (Ok 200 [(bobHigh, Some bob), (carolMid, Some carol)],
                 snd (suggestions True scoringAi exampleDb aliceRequest))"
    using ex_suggestions by (metis prod.collapse)
  have fa: "\<forall>ms. scoringAi alice (requesterProjects exampleDb alice) ?in = Parsed ms
              \<longrightarrow> (\<forall>m \<in> set ms. \<exists>k \<in> set ?in. pf_id (mc_profile k) = mr_profileId m)"
    by (simp add: ex_pipelineInput scoringAi_def carolLow_def carolMid_def bobHigh_def bob_def carol_def)
  from suggestions_candidates [OF eq] obtain uid cp where
    u: "currentUserId True aliceRequest = Some uid" and p: "getProfileByUserId exampleDb uid = Some cp"
    and out: "distinct (map pf_id (profiles exampleDb))
               \<and> (\<forall>ms. scoringAi cp (requesterProjects exampleDb cp) (pipelineInput exampleDb cp aliceRequest) = Parsed ms
                     \<longrightarrow> (\<forall>m \<in> set ms. \<exists>k \<in> set (pipelineInput exampleDb cp aliceRequest).
                             pf_id (mc_profile k) = mr_profileId m))
              \<longrightarrow> (\<forall>r \<in> set [(bobHigh, Some bob), (carolMid, Some carol)]. \<exists>p.
                     snd r = Some p \<and> pf_id p = mr_profileId (fst r)
                   \<and> pf_id p \<noteq> sr_profileId aliceRequest
                   \<and> \<not> spec_connected exampleDb (sr_profileId aliceRequest) (pf_id p)
                   \<and> spec_compatible (pf_role cp) (pf_role p)
                   \<and> (truthy (sr_role aliceRequest) \<longrightarrow> Some (pf_role p) = sr_role aliceRequest))"
    by blast
  from u p ex_user ex_profile have cp: "cp = alice" by simp
  from out [unfolded cp] ex_distinct_ids fa
  have "\<forall>r \<in> set [(bobHigh, Some bob), (carolMid, Some carol)]. \<exists>p.
                     snd r = Some p \<and> pf_id p = mr_profileId (fst r)
                   \<and> pf_id p \<noteq> sr_profileId aliceRequest
                   \<and> \<not> spec_connected exampleDb (sr_profileId aliceRequest) (pf_id p)
                   \<and> spec_compatible (pf_role alice) (pf_role p)
                   \<and> (truthy (sr_role aliceRequest) \<longrightarrow> Some (pf_role p) = sr_role aliceRequest)"
    by blast
  then have "pf_id bob \<noteq> sr_profileId aliceRequest
      \<and> \<not> spec_connected exampleDb (sr_profileId aliceRequest) (pf_id bob)
      \<and> spec_compatible (pf_role alice) (pf_role bob)
      \<and> \<not> spec_connected exampleDb (sr_profileId aliceRequest) (pf_id carol)"
    by auto
  moreover have "spec_connected exampleDb (sr_profileId aliceRequest) (pf_id dave)"
    using ex_dave_connected by (simp add: aliceRequest_def dave_def)
  ultimately show ?thesis using ex_suggestions ex_distinct_ids by simp
qed

lemma score_spec_agree:
  assumes "truthy (pf_location cp)" and "distinct (tagsOrEmpty c)"
  shows "score cp c = spec_score cp c"
proof -
  from assms(1) have "pf_location cp \<noteq> None" by (cases "pf_location cp") simp_all
  then have "(pf_location c \<noteq> None \<and> pf_location c = pf_location cp)
               = (pf_location c = pf_location cp)"
    by auto
  with assms overlap_distinct [OF assms(2), of cp] show ?thesis
    by (simp add: score_def spec_score_def)
qed

lemma ranked_split:
  "\<exists>rest. mset (rankedCandidates cp cands) + mset rest = mset cands
         \<and> (\<forall>x \<in> set (rankedCandidates cp cands). \<forall>y \<in> set rest. score cp y \<le> score cp x)"
proof -
  let ?s = "sortDesc (score cp) cands"
  have "mset (take 20 ?s) + mset (drop 20 ?s) = mset ?s"
    by (metis append_take_drop_id mset_append)
  then have a: "mset (rankedCandidates cp cands) + mset (drop 20 ?s) = mset cands"
    by (simp add: rankedCandidates_take mset_sortDesc)
  have b: "\<forall>x \<in> set (rankedCandidates cp cands). \<forall>y \<in> set (drop 20 ?s). score cp y \<le> score cp x"
    using sorted_wrt_take_drop [OF sorted_sortDesc [of "score cp" cands], of _ 20]
    by (simp add: rankedCandidates_take)
  from a b show ?thesis by blast
qed

text \<open>
  C2, as stated, fails on the location bonus: the code adds 5 only when the
  requester's location is truthy, so two profiles whose location is the same empty
  string get no bonus although the strings are identical and not null. It also
  counts a tag the candidate lists twice as two shared tags.
\<close>

theorem score_counterexample:
  "pf_location nowhereInvestor = pf_location nowhereCoder
   \<and> pf_location nowhereInvestor \<noteq> None
   \<and> score nowhereCoder nowhereInvestor = 0
   \<and> spec_score nowhereCoder nowhereInvestor = 5
   \<and> score alice repeatingInvestor = 20
   \<and> spec_score alice repeatingInvestor = 10"
  by (simp add: score_def spec_score_def overlap_def tagsOrEmpty_def nowhereCoder_def
      nowhereInvestor_def alice_def repeatingInvestor_def)

text \<open>
  C2, amended. The score of a candidate is 10 times the number of entries of the
  candidate's tag list that occur among the requester's tags (the number of shared
  tags when the candidate's list repeats no tag), plus 5 if the requester's location
  is a non-empty string and the candidate's location is identical to it; so it is the
  score of the specification whenever the requester's location is non-empty and the
  candidate's tags are distinct. The candidates are sorted by descending score,
  equal scores keeping their order, and the first 20 are kept: the kept list is
  ordered, has min 20 n elements for n candidates, and no candidate left out scores
  higher than a kept one. The scoring step is handed at most 20 candidates.
\<close>

theorem rankedCandidates_prerank:
  "score cp c = 10 * length (filter (\<lambda>tag. tag \<in> set (tagsOrEmpty cp)) (tagsOrEmpty c))
                + (if truthy (pf_location cp) \<and> pf_location c = pf_location cp then 5 else 0)
   \<and> (distinct (tagsOrEmpty c)
        \<longrightarrow> length (filter (\<lambda>tag. tag \<in> set (tagsOrEmpty cp)) (tagsOrEmpty c))
              = card (set (tagsOrEmpty c) \<inter> set (tagsOrEmpty cp)))
   \<and> (truthy (pf_location cp) \<and> distinct (tagsOrEmpty c) \<longrightarrow> score cp c = spec_score cp c)
   \<and> rankedCandidates cp cands = take 20 (sortDesc (score cp) cands)
   \<and> sorted_wrt (\<lambda>a b. score cp b \<le> score cp a) (rankedCandidates cp cands)
   \<and> length (rankedCandidates cp cands) = min 20 (length cands)
   \<and> (\<exists>rest. mset (rankedCandidates cp cands) + mset rest = mset cands
         \<and> (\<forall>x \<in> set (rankedCandidates cp cands). \<forall>y \<in> set rest. score cp y \<le> score cp x))
   \<and> length (pipelineInput db cp req) \<le> 20"
proof -
  have a: "score cp c = 10 * length (filter (\<lambda>tag. tag \<in> set (tagsOrEmpty cp)) (tagsOrEmpty c))
                + (if truthy (pf_location cp) \<and> pf_location c = pf_location cp then 5 else 0)"
    by (simp add: score_def overlap_def)
  have b: "distinct (tagsOrEmpty c)
        \<longrightarrow> length (filter (\<lambda>tag. tag \<in> set (tagsOrEmpty cp)) (tagsOrEmpty c))
              = card (set (tagsOrEmpty c) \<inter> set (tagsOrEmpty cp))"
    using overlap_distinct [of c cp] by (simp add: overlap_def)
  have c: "truthy (pf_location cp) \<and> distinct (tagsOrEmpty c) \<longrightarrow> score cp c = spec_score cp c"
    using score_spec_agree by blast
  have d: "sorted_wrt (\<lambda>a b. score cp b \<le> score cp a) (rankedCandidates cp cands)"
    by (simp add: rankedCandidates_take sorted_wrt_take sorted_sortDesc)
  have e: "length (rankedCandidates cp cands) = min 20 (length cands)"
    by (simp add: rankedCandidates_take length_sortDesc min.commute)
  from a b c rankedCandidates_take [of cp cands] d e ranked_split [of cp cands]
    length_pipelineInput [of db cp req]
  show ?thesis by blast
qed

theorem rankedCandidates_prerank_witness:
  "truthy (pf_location alice) \<and> distinct (tagsOrEmpty bob)
   \<and> score alice bob = 15 \<and> spec_score alice bob = 15 \<and> score alice carol = 0
   \<and> rankedCandidates alice [carol, bob] = [bob, carol]
   \<and> length (rankedCandidates alice (replicate 100 carol)) = 20"
proof -
  have t: "truthy (pf_location alice)" by (simp add: alice_def)
  have d: "distinct (tagsOrEmpty bob)" by (simp add: tagsOrEmpty_def bob_def)
  have sb: "score alice bob = 15"
    by (simp add: score_def overlap_def tagsOrEmpty_def alice_def bob_def)
  have sc: "score alice carol = 0"
    by (simp add: score_def overlap_def tagsOrEmpty_def alice_def carol_def)
  note th = rankedCandidates_prerank [of alice bob "[carol, bob]"]
  from th t d sb have sp: "spec_score alice bob = 15" by simp
  from th have "rankedCandidates alice [carol, bob] = take 20 (sortDesc (score alice) [carol, bob])"
    by blast
  then have r: "rankedCandidates alice [carol, bob] = [bob, carol]"
    by (simp add: sb sc)
  from rankedCandidates_prerank [of alice bob "replicate 100 carol"]
  have "length (rankedCandidates alice (replicate 100 carol)) = min 20 (length (replicate 100 carol))"
    by blast
  then have l: "length (rankedCandidates alice (replicate 100 carol)) = 20" by simp
  from t d sb sp sc r l show ?thesis by blast
qed

section \<open>Match creation and response\<close>

lemma hasPendingMatch_iff:
  "hasPendingMatch db d =
     (\<exists>m \<in> set (matches db). mt_status m = ''pending''
        \<and> ((mt_initiatorId m = im_initiatorId d \<and> mt_receiverId m = im_receiverId d)
           \<or> (mt_initiatorId m = im_receiverId d \<and> mt_receiverId m = im_initiatorId d)))"
  by (auto simp: hasPendingMatch_def list_ex_iff getMatches_def set_sortDesc)

text \<open>
  C4. If a pending match joins two profiles, a creation request between the same two
  profiles, whichever of them is the initiator, is answered 409 and the database is
  unchanged. The scan of the initiator's matches finds exactly the pending matches
  of the pair in either direction; without one, the request is answered 201 and the
  new row is appended.
\<close>

theorem createMatchRoute_conflict:
  assumes "m \<in> set (matches db)" and "mt_status m = ''pending''"
    and "(mt_initiatorId m = im_initiatorId d \<and> mt_receiverId m = im_receiverId d)
         \<or> (mt_initiatorId m = im_receiverId d \<and> mt_receiverId m = im_initiatorId d)"
  shows "createMatchRoute db newId now (Some d)
           = (Fail 409 ''A pending match request already exists between these users'', db)"
proof -
  from assms have "hasPendingMatch db d"
    unfolding hasPendingMatch_iff by blast
  then show ?thesis by (simp add: createMatchRoute_def)
qed

theorem createMatchRoute_conflict_witness:
  "daveToAlice \<in> set (matches exampleDb) \<and> mt_status daveToAlice = ''pending''
   \<and> mt_initiatorId daveToAlice = im_receiverId aliceToDave
   \<and> mt_receiverId daveToAlice = im_initiatorId aliceToDave
   \<and> createMatchRoute exampleDb ''m2'' 300 (Some aliceToDave)
        = (Fail 409 ''A pending match request already exists between these users'', exampleDb)"
proof -
  have a: "daveToAlice \<in> set (matches exampleDb)" by (simp add: exampleDb_def)
  have b: "mt_status daveToAlice = ''pending''" by (simp add: daveToAlice_def)
  have c: "mt_initiatorId daveToAlice = im_receiverId aliceToDave
           \<and> mt_receiverId daveToAlice = im_initiatorId aliceToDave"
    by (simp add: daveToAlice_def aliceToDave_def)
  then have c': "(mt_initiatorId daveToAlice = im_initiatorId aliceToDave
                    \<and> mt_receiverId daveToAlice = im_receiverId aliceToDave)
         \<or> (mt_initiatorId daveToAlice = im_receiverId aliceToDave
                    \<and> mt_receiverId daveToAlice = im_initiatorId aliceToDave)"
    by blast
  from createMatchRoute_conflict [OF a b c', of "''m2''" 300] a b c show ?thesis by blast
qed

lemma createMatchRoute_created:
  assumes "\<not> hasPendingMatch db d" and "createMatch db newId now d = Some (row, db')"
  shows "createMatchRoute db newId now (Some d) = (Ok 201 row, db')
       \<and> db' = db\<lparr>matches := matches db @ [row]\<rparr>
       \<and> mt_initiatorId row = im_initiatorId d \<and> mt_receiverId row = im_receiverId d"
  using assms by (auto simp: createMatchRoute_def createMatch_def Let_def split: if_splits)

lemma createMatchRoute_refused:
  assumes "\<not> hasPendingMatch db d" and "createMatch db newId now d = None"
  shows "createMatchRoute db newId now (Some d) = (Fail 400 ''Invalid match data'', db)"
  using assms by (simp add: createMatchRoute_def)

lemma ex_created:
  "statusOf (fst (createMatchRoute exampleDb ''m2'' 300 (Some aliceToBob))) = 201"
proof -
  have "\<not> hasPendingMatch exampleDb aliceToBob"
    unfolding hasPendingMatch_iff
    by (simp add: exampleDb_def daveToAlice_def aliceToBob_def)
  moreover have "createMatch exampleDb ''m2'' 300 aliceToBob \<noteq> None"
    by (simp add: createMatch_def Let_def fits20_def storable_def profileIds_def exampleDb_def aliceToBob_def
        daveToAlice_def alice_def bob_def carol_def dave_def)
  ultimately show ?thesis
    by (auto simp: createMatchRoute_def)
qed










section \<open>Member access\<close>

lemma ex_member: "getProjectMember projectDb ''x1'' = Some daveMember"
  by (simp add: getProjectMember_def projectDb_def daveMember_def)

lemma ex_project: "getProject projectDb (pm_projectId daveMember) = Some aliceProject"
  by (simp add: getProject_def projectDb_def daveMember_def aliceProject_def)

text \<open>
  C7. The member-access PATCH succeeds only when the x-user-id of the caller is the
  owner (vibeCodeId) of the target member's project. Any other caller gets an error
  status and the database is unchanged; on a well-formed request for an existing
  member of an existing project that error is 403. On success the database differs
  from the old one only in the projectMembers table, and there only in the
  hasAccess field of the row with the given id.
\<close>

theorem patchProjectMember_owner_only:
  "(statusOf (fst (patchProjectMember db xUserId v mid)) = 200
      \<longrightarrow> (\<exists>member project b.
             getProjectMember db mid = Some member
           \<and> getProject db (pm_projectId member) = Some project
           \<and> xUserId = Some (pj_vibeCodeId project) \<and> v = Some (JBool b)
           \<and> fst (patchProjectMember db xUserId v mid) = Ok 200 (member\<lparr>pm_hasAccess := b\<rparr>)
           \<and> snd (patchProjectMember db xUserId v mid)
                = db\<lparr>projectMembers :=
                       map (\<lambda>m. if pm_id m = mid then m\<lparr>pm_hasAccess := b\<rparr> else m)
                         (projectMembers db)\<rparr>))
   \<and> (statusOf (fst (patchProjectMember db xUserId v mid)) \<noteq> 200
      \<longrightarrow> snd (patchProjectMember db xUserId v mid) = db
        \<and> statusOf (fst (patchProjectMember db xUserId v mid)) \<in> {400, 401, 403, 404})
   \<and> (\<forall>member project u b.
          getProjectMember db mid = Some member
        \<and> getProject db (pm_projectId member) = Some project
        \<and> xUserId = Some u \<and> u \<noteq> [] \<and> u \<noteq> pj_vibeCodeId project \<and> v = Some (JBool b)
      \<longrightarrow> patchProjectMember db xUserId v mid
            = (Fail 403 ''Only the project owner can update member access'', db))"
proof -
  let ?r = "patchProjectMember db xUserId v mid"
  have found: "find (\<lambda>m. pm_id m = mid)
                 (map (\<lambda>m. if pm_id m = mid then m\<lparr>pm_hasAccess := b\<rparr> else m) ms)
               = map_option (\<lambda>m. m\<lparr>pm_hasAccess := b\<rparr>) (find (\<lambda>m. pm_id m = mid) ms)" for b ms
    by (induction ms) simp_all
  have upd: "updateProjectMember db mid b
               = (Some (member\<lparr>pm_hasAccess := b\<rparr>),
                  db\<lparr>projectMembers :=
                       map (\<lambda>m. if pm_id m = mid then m\<lparr>pm_hasAccess := b\<rparr> else m)
                         (projectMembers db)\<rparr>)"
    if "getProjectMember db mid = Some member" for member b
    using that by (simp add: updateProjectMember_def Let_def found getProjectMember_def)
  have c: "?r = (Fail 403 ''Only the project owner can update member access'', db)"
    if "getProjectMember db mid = Some member" "getProject db (pm_projectId member) = Some project"
      "xUserId = Some u" "u \<noteq> []" "u \<noteq> pj_vibeCodeId project" "v = Some (JBool b)"
    for member project u b
    using that by (simp add: patchProjectMember_def updateSchema_def)
  have ab:
    "(statusOf (fst ?r) = 200
      \<longrightarrow> (\<exists>member project b.
             getProjectMember db mid = Some member
           \<and> getProject db (pm_projectId member) = Some project
           \<and> xUserId = Some (pj_vibeCodeId project) \<and> v = Some (JBool b)
           \<and> fst ?r = Ok 200 (member\<lparr>pm_hasAccess := b\<rparr>)
           \<and> snd ?r
                = db\<lparr>projectMembers :=
                       map (\<lambda>m. if pm_id m = mid then m\<lparr>pm_hasAccess := b\<rparr> else m)
                         (projectMembers db)\<rparr>))
   \<and> (statusOf (fst ?r) \<noteq> 200
      \<longrightarrow> snd ?r = db \<and> statusOf (fst ?r) \<in> {400, 401, 403, 404})"
  proof (cases "truthy xUserId")
    case False
    then show ?thesis by (simp add: patchProjectMember_def)
  next
    case auth: True
    show ?thesis
    proof (cases "updateSchema v")
      case None
      with auth show ?thesis by (simp add: patchProjectMember_def)
    next
      case body: (Some b)
      show ?thesis
      proof (cases "getProjectMember db mid")
        case None
        with auth body show ?thesis by (simp add: patchProjectMember_def)
      next
        case mem: (Some member)
        show ?thesis
        proof (cases "getProject db (pm_projectId member)")
          case None
          with auth body mem show ?thesis by (simp add: patchProjectMember_def)
        next
          case proj: (Some project)
          show ?thesis
          proof (cases "the xUserId = pj_vibeCodeId project")
            case False
            with auth body mem proj show ?thesis by (simp add: patchProjectMember_def)
          next
            case True
            from body have vb: "v = Some (JBool b)"
              by (auto simp: updateSchema_def split: option.splits json.splits)
            from auth True have x: "xUserId = Some (pj_vibeCodeId project)"
              by (cases xUserId) auto
            have "?r = (Ok 200 (member\<lparr>pm_hasAccess := b\<rparr>),
                db\<lparr>projectMembers :=
                       map (\<lambda>m. if pm_id m = mid then m\<lparr>pm_hasAccess := b\<rparr> else m)
                         (projectMembers db)\<rparr>)"
              using auth body mem proj True upd [OF mem, of b]
              by (simp add: patchProjectMember_def)
            with mem proj x vb show ?thesis by simp
          qed
        qed
      qed
    qed
  qed
  from ab c show ?thesis by blast
qed

theorem patchProjectMember_owner_only_witness:
  "patchProjectMember projectDb (Some ''pb'') (Some (JBool True)) ''x1''
     = (Fail 403 ''Only the project owner can update member access'', projectDb)
   \<and> fst (patchProjectMember projectDb (Some ''pa'') (Some (JBool True)) ''x1'')
     = Ok 200 (daveMember\<lparr>pm_hasAccess := True\<rparr>)
   \<and> snd (patchProjectMember projectDb (Some ''pa'') (Some (JBool True)) ''x1'')
     = projectDb\<lparr>projectMembers := [daveMember\<lparr>pm_hasAccess := True\<rparr>, bobMember]\<rparr>"
proof -
  have o: "''pb'' \<noteq> pj_vibeCodeId aliceProject" "''pb'' \<noteq> []"
    by (simp_all add: aliceProject_def)
  from patchProjectMember_owner_only [of projectDb "Some ''pb''" "Some (JBool True)" "''x1''"]
    ex_member ex_project o
  have a: "patchProjectMember projectDb (Some ''pb'') (Some (JBool True)) ''x1''
     = (Fail 403 ''Only the project owner can update member access'', projectDb)"
    by blast
  have u: "updateProjectMember projectDb ''x1'' True
             = (Some (daveMember\<lparr>pm_hasAccess := True\<rparr>),
                projectDb\<lparr>projectMembers := [daveMember\<lparr>pm_hasAccess := True\<rparr>, bobMember]\<rparr>)"
    by (simp add: updateProjectMember_def Let_def projectDb_def daveMember_def bobMember_def)
  have b: "patchProjectMember projectDb (Some ''pa'') (Some (JBool True)) ''x1''
     = (Ok 200 (daveMember\<lparr>pm_hasAccess := True\<rparr>),
        projectDb\<lparr>projectMembers := [daveMember\<lparr>pm_hasAccess := True\<rparr>, bobMember]\<rparr>)"
    unfolding patchProjectMember_def
    by (simp add: updateSchema_def ex_member ex_project u aliceProject_def)
  from a b show ?thesis by simp
qed

section \<open>Contribution value distribution\<close>

text \<open>The exact sums.\<close>

lemma map_of_addExact:
  "map_of (addExact k v acc) = (map_of acc)(k \<mapsto> (case map_of acc k of None \<Rightarrow> v | Some w \<Rightarrow> w + v))"
  by (induction acc) (auto simp: fun_eq_iff)

lemma keys_addExact: "fst ` set (addExact k v acc) = insert k (fst ` set acc)"
proof (induction acc)
  case Nil
  then show ?case by simp
next
  case (Cons a acc)
  obtain k' w where a: "a = (k', w)" by (cases a)
  show ?case
    by (cases "k' = k") (simp_all add: a Cons.IH insert_commute)
qed

lemma distinct_addExact: "distinct (map fst acc) \<Longrightarrow> distinct (map fst (addExact k v acc))"
  by (induction acc) (auto simp: keys_addExact)

lemma valueOf_absent: "k \<notin> cn_contributorId ` set cs \<Longrightarrow> valueOf cs k = 0"
proof -
  assume "k \<notin> cn_contributorId ` set cs"
  then have "filter (\<lambda>c. cn_contributorId c = k) cs = []"
    by (auto simp: filter_empty_conv)
  then show ?thesis by (simp add: valueOf_def)
qed

lemma valueOf_Cons:
  "valueOf (c # cs) k = (if cn_contributorId c = k then storedScore c else 0) + valueOf cs k"
  by (simp add: valueOf_def)

lemma foldl_addExact:
  "map_of (foldl (\<lambda>acc c. addExact (cn_contributorId c) (storedScore c) acc) acc cs) k
     = (if k \<in> cn_contributorId ` set cs
        then Some ((case map_of acc k of None \<Rightarrow> 0 | Some w \<Rightarrow> w) + valueOf cs k)
        else map_of acc k)"
proof (induction cs arbitrary: acc)
  case Nil
  then show ?case by simp
next
  case (Cons c cs)
  show ?case
  proof (cases "k \<in> cn_contributorId ` set cs")
    case True
    then show ?thesis
      by (simp add: Cons.IH map_of_addExact valueOf_Cons split: option.splits)
  next
    case False
    then have z: "valueOf cs k = 0" by (rule valueOf_absent)
    from False z show ?thesis
      by (auto simp: Cons.IH map_of_addExact valueOf_Cons split: option.splits)
  qed
qed

lemma foldl_distinct:
  "distinct (map fst acc) \<Longrightarrow>
   distinct (map fst (foldl (\<lambda>acc c. addExact (cn_contributorId c) (storedScore c) acc) acc cs))"
  by (induction cs arbitrary: acc) (simp_all add: distinct_addExact)

lemma exactValues_lookup:
  "map_of (exactValues cs) k
     = (if k \<in> cn_contributorId ` set cs then Some (valueOf cs k) else None)"
  by (simp add: exactValues_def foldl_addExact)

lemma exactValues_distinct: "distinct (map fst (exactValues cs))"
  by (simp add: exactValues_def foldl_distinct)

lemma exactValues_entry:
  assumes "(k, v) \<in> set (exactValues cs)"
  shows "k \<in> cn_contributorId ` set cs \<and> v = valueOf cs k"
proof -
  from assms exactValues_distinct [of cs] have "map_of (exactValues cs) k = Some v"
    by simp
  then show ?thesis
    by (simp add: exactValues_lookup split: if_splits)
qed

lemma exactValues_keys: "fst ` set (exactValues cs) = cn_contributorId ` set cs"
proof -
  have "fst ` set (exactValues cs) = dom (map_of (exactValues cs))"
    by (simp add: dom_map_of_conv_image_fst)
  also have "\<dots> = cn_contributorId ` set cs"
    by (auto simp: exactValues_lookup dom_def)
  finally show ?thesis .
qed

lemma abs_sum_list: "\<bar>sum_list (map f xs)\<bar> \<le> sum_list (map (\<lambda>x. \<bar>f x :: int\<bar>) xs)"
  by (induction xs) auto

lemma abs_sum_filter:
  "\<bar>sum_list (map f (filter P xs))\<bar> \<le> sum_list (map (\<lambda>x. \<bar>f x :: int\<bar>) xs)"
  by (induction xs) auto

lemma valueOf_bound: "\<bar>valueOf cs k\<bar> \<le> sum_list (map (\<lambda>c. \<bar>storedScore c\<bar>) cs)"
  unfolding valueOf_def by (rule abs_sum_filter)

text \<open>As long as the sums stay within 53 bits, the doubles of the code are the exact sums.\<close>

lemma scoreOrZero_exact:
  "\<bar>storedScore c\<bar> \<le> 2 ^ 53 \<Longrightarrow> scoreOrZero c = Fin (of_int (storedScore c))"
  by (cases "cn_valueScore c") (simp_all add: scoreOrZero_def storedScore_def roundDouble_int)

lemma jsPlus_exact:
  "\<bar>a + b\<bar> \<le> 2 ^ 53 \<Longrightarrow> jsPlus (Fin (of_int a)) (Fin (of_int b)) = Fin (of_int (a + b))"
  using roundDouble_int [of "a + b"] by simp

lemma foldl_total:
  "\<bar>a\<bar> + sum_list (map (\<lambda>c. \<bar>storedScore c\<bar>) cs) \<le> 2 ^ 53 \<Longrightarrow>
   foldl (\<lambda>sum c. jsPlus sum (scoreOrZero c)) (Fin (of_int a)) cs
     = Fin (of_int (a + sum_list (map storedScore cs)))"
proof (induction cs arbitrary: a)
  case Nil
  then show ?case by simp
next
  case (Cons c cs)
  have nn: "0 \<le> sum_list (map (\<lambda>c. \<bar>storedScore c\<bar>) cs)" by (rule sum_list_nonneg) auto
  from Cons.prems nn have c: "\<bar>storedScore c\<bar> \<le> 2 ^ 53" and ac: "\<bar>a + storedScore c\<bar> \<le> 2 ^ 53"
    and rest: "\<bar>a + storedScore c\<bar> + sum_list (map (\<lambda>c. \<bar>storedScore c\<bar>) cs) \<le> 2 ^ 53"
    by simp_all
  have "foldl (\<lambda>sum c. jsPlus sum (scoreOrZero c)) (Fin (of_int a)) (c # cs)
          = foldl (\<lambda>sum c. jsPlus sum (scoreOrZero c)) (Fin (of_int (a + storedScore c))) cs"
    by (simp only: foldl_Cons scoreOrZero_exact [OF c] jsPlus_exact [OF ac])
  also have "\<dots> = Fin (of_int (a + storedScore c + sum_list (map storedScore cs)))"
    by (rule Cons.IH [OF rest])
  finally show ?case by (simp add: add.assoc)
qed

lemma totalValue_exact:
  assumes "sum_list (map (\<lambda>c. \<bar>storedScore c\<bar>) cs) \<le> 2 ^ 53"
  shows "totalValue cs = Fin (of_int (sum_list (map storedScore cs)))"
  using foldl_total [of 0 cs] assms by (simp add: totalValue_def)

lemma weight_entry: "(k, w) \<in> set acc \<Longrightarrow> \<bar>w\<bar> \<le> sum_list (map (\<lambda>e. \<bar>snd e :: int\<bar>) acc)"
proof (induction acc)
  case Nil
  then show ?case by simp
next
  case (Cons a acc)
  have "0 \<le> sum_list (map (\<lambda>e. \<bar>snd e :: int\<bar>) acc)" by (rule sum_list_nonneg) auto
  with Cons show ?case by auto
qed

lemma weight_addExact:
  "sum_list (map (\<lambda>e. \<bar>snd e\<bar>) (addExact k v acc)) \<le> sum_list (map (\<lambda>e. \<bar>snd e\<bar>) acc) + \<bar>v\<bar>"
  by (induction acc) auto

lemma addValue_exact:
  assumes "plainKey k" and "sum_list (map (\<lambda>e. \<bar>snd e\<bar>) acc) + \<bar>v\<bar> \<le> 2 ^ 53"
  shows "addValue k (Fin (of_int v)) (map asNumber acc) = map asNumber (addExact k v acc)"
  using assms(2)
proof (induction acc)
  case Nil
  then have "\<bar>0 + v\<bar> \<le> 2 ^ 53" by simp
  from jsPlus_exact [OF this] assms(1) show ?case
    by (simp add: plainKey_def asNumber_def)
next
  case (Cons a acc)
  obtain k' w where a: "a = (k', w)" by (cases a)
  have nn: "0 \<le> sum_list (map (\<lambda>e. \<bar>snd e\<bar>) acc)" by (rule sum_list_nonneg) auto
  show ?case
  proof (cases "k' = k")
    case True
    from Cons.prems nn have "\<bar>w + v\<bar> \<le> 2 ^ 53" by (simp add: a)
    from jsPlus_exact [OF this] True show ?thesis
      by (simp add: a asNumber_def del: of_int_add)
  next
    case False
    from Cons.prems have "sum_list (map (\<lambda>e. \<bar>snd e\<bar>) acc) + \<bar>v\<bar> \<le> 2 ^ 53" by (simp add: a)
    from Cons.IH [OF this] False show ?thesis
      by (simp add: a asNumber_def)
  qed
qed

lemma foldl_exact:
  assumes "\<forall>c \<in> set cs. plainKey (cn_contributorId c)"
    and "sum_list (map (\<lambda>e. \<bar>snd e\<bar>) acc) + sum_list (map (\<lambda>c. \<bar>storedScore c\<bar>) cs) \<le> 2 ^ 53"
  shows "foldl (\<lambda>acc c. addValue (cn_contributorId c) (scoreOrZero c) acc) (map asNumber acc) cs
           = map asNumber (foldl (\<lambda>acc c. addExact (cn_contributorId c) (storedScore c) acc) acc cs)"
  using assms
proof (induction cs arbitrary: acc)
  case Nil
  then show ?case by simp
next
  case (Cons c cs)
  have nn: "0 \<le> sum_list (map (\<lambda>c. \<bar>storedScore c\<bar>) cs)"
    "0 \<le> sum_list (map (\<lambda>e. \<bar>snd e\<bar>) acc)" by (rule sum_list_nonneg, auto)+
  from Cons.prems(2) nn have c: "\<bar>storedScore c\<bar> \<le> 2 ^ 53"
    and w: "sum_list (map (\<lambda>e. \<bar>snd e\<bar>) acc) + \<bar>storedScore c\<bar> \<le> 2 ^ 53"
    by simp_all
  from Cons.prems(1) have k: "plainKey (cn_contributorId c)"
    and ks: "\<forall>c \<in> set cs. plainKey (cn_contributorId c)" by simp_all
  from weight_addExact [of "cn_contributorId c" "storedScore c" acc] Cons.prems(2)
  have rest: "sum_list (map (\<lambda>e. \<bar>snd e\<bar>) (addExact (cn_contributorId c) (storedScore c) acc))
                + sum_list (map (\<lambda>c. \<bar>storedScore c\<bar>) cs) \<le> 2 ^ 53"
    by simp
  show ?case
    by (simp add: scoreOrZero_exact [OF c] addValue_exact [OF k w] Cons.IH [OF ks rest])
qed

lemma contributorValues_exact:
  assumes "\<forall>c \<in> set cs. plainKey (cn_contributorId c)"
    and "sum_list (map (\<lambda>c. \<bar>storedScore c\<bar>) cs) \<le> 2 ^ 53"
  shows "contributorValues cs = map asNumber (exactValues cs)"
  using foldl_exact [OF assms(1), of "[]"] assms(2)
  by (simp add: contributorValues_def exactValues_def)

text \<open>Object.entries permutes the own properties.\<close>

lemma set_objectEntries: "set (objectEntries own) = set own"
  by (auto simp: objectEntries_def)

lemma mset_objectEntries: "mset (objectEntries own) = mset own"
  by (simp add: objectEntries_def)

lemma distinct_objectEntries:
  "distinct (map fst (objectEntries own)) = distinct (map fst own)"
proof -
  have "mset (map fst (objectEntries own)) = mset (map fst own)"
    by (simp only: mset_map mset_objectEntries)
  then show ?thesis by (rule mset_eq_imp_distinct_iff)
qed

lemma objectEntries_plain:
  "\<forall>e \<in> set own. arrayIndex (fst e) = None \<Longrightarrow> objectEntries own = own"
  by (simp add: objectEntries_def filter_empty_conv)

text \<open>The example lists.\<close>

lemma ex_not_index:
  "arrayIndex ''pa'' = None" "arrayIndex ''pb'' = None" "arrayIndex ''pc'' = None"
  "arrayIndex ''pd'' = None"
  by (simp_all add: arrayIndex_def units_def isDigit_def)

lemma ex_plain: "plainKey ''pa''" "plainKey ''pb''" "plainKey ''pc''" "plainKey ''pd''"
  by (simp_all add: plainKey_def inheritedNames_def)

lemma ex_quotients:
  "jsTimes (jsDivide (Fin 30) (Fin 40)) (Fin 100) = Fin 75"
  "jsTimes (jsDivide (Fin 10) (Fin 40)) (Fin 100) = Fin 25"
  "jsTimes (jsDivide (Fin 7) (Fin 25)) (Fin 100) = Fin (7881299347898369 / 2 ^ 48)"
  "jsTimes (jsDivide (Fin 18) (Fin 25)) (Fin 100) = Fin 72"
proof -
  have "roundDouble (3 / 4) = Fin (of_int 6755399441055744 * pow2 (- 1 - 52))"
    by (rule roundDouble_eval) (simp_all add: pow2_def)
  then have a: "roundDouble (3 / 4) = Fin (3 / 4)" by (simp add: pow2_def)
  have "roundDouble 75 = Fin (of_int 5277655813324800 * pow2 (6 - 52))"
    by (rule roundDouble_eval) (simp_all add: pow2_def)
  then have b: "roundDouble 75 = Fin 75" by (simp add: pow2_def)
  from a b show "jsTimes (jsDivide (Fin 30) (Fin 40)) (Fin 100) = Fin 75" by simp
  have "roundDouble (1 / 4) = Fin (of_int 4503599627370496 * pow2 (- 2 - 52))"
    by (rule roundDouble_eval) (simp_all add: pow2_def)
  then have c: "roundDouble (1 / 4) = Fin (1 / 4)" by (simp add: pow2_def)
  have "roundDouble 25 = Fin (of_int 7036874417766400 * pow2 (4 - 52))"
    by (rule roundDouble_eval) (simp_all add: pow2_def)
  then have d: "roundDouble 25 = Fin 25" by (simp add: pow2_def)
  from c d show "jsTimes (jsDivide (Fin 10) (Fin 40)) (Fin 100) = Fin 25" by simp
  have "roundDouble (7 / 25) = Fin (of_int 5044031582654956 * pow2 (- 2 - 52))"
    by (rule roundDouble_eval) (simp_all add: pow2_def)
  then have e: "roundDouble (7 / 25) = Fin (5044031582654956 / 2 ^ 54)" by (simp add: pow2_def)
  have "roundDouble (5044031582654956 / 2 ^ 54 * 100)
          = Fin (of_int 7881299347898369 * pow2 (4 - 52))"
    by (rule roundDouble_eval) (simp_all add: pow2_def)
  then have f: "roundDouble (5044031582654956 / 2 ^ 54 * 100) = Fin (7881299347898369 / 2 ^ 48)"
    by (simp add: pow2_def)
  from e f show "jsTimes (jsDivide (Fin 7) (Fin 25)) (Fin 100) = Fin (7881299347898369 / 2 ^ 48)"
    by simp
  have "roundDouble (18 / 25) = Fin (of_int 6485183463413514 * pow2 (- 1 - 52))"
    by (rule roundDouble_eval) (simp_all add: pow2_def)
  then have g: "roundDouble (18 / 25) = Fin (6485183463413514 / 2 ^ 53)" by (simp add: pow2_def)
  have "roundDouble (6485183463413514 / 2 ^ 53 * 100)
          = Fin (of_int 5066549580791808 * pow2 (6 - 52))"
    by (rule roundDouble_eval) (simp_all add: pow2_def)
  then have h: "roundDouble (6485183463413514 / 2 ^ 53 * 100) = Fin 72" by (simp add: pow2_def)
  from g h show "jsTimes (jsDivide (Fin 18) (Fin 25)) (Fin 100) = Fin 72" by simp
qed

lemma ex_values:
  "contributorValues [aliceWork, daveWork, daveUnscored]
     = [(''pa'', Number (Fin 30)), (''pd'', Number (Fin 10))]"
proof -
  have "contributorValues [aliceWork, daveWork, daveUnscored]
          = map asNumber (exactValues [aliceWork, daveWork, daveUnscored])"
    by (rule contributorValues_exact)
       (simp_all add: storedScore_def ex_plain aliceWork_def daveWork_def daveUnscored_def)
  then show ?thesis
    by (simp add: exactValues_def asNumber_def storedScore_def aliceWork_def daveWork_def
        daveUnscored_def)
qed

lemma ex_total: "totalValue [aliceWork, daveWork, daveUnscored] = Fin 40"
  using totalValue_exact [of "[aliceWork, daveWork, daveUnscored]"]
  by (simp add: storedScore_def aliceWork_def daveWork_def daveUnscored_def)

lemma ex_rounded_values:
  "contributorValues [bobWork, carolWork] = [(''pb'', Number (Fin 7)), (''pc'', Number (Fin 18))]"
proof -
  have "contributorValues [bobWork, carolWork] = map asNumber (exactValues [bobWork, carolWork])"
    by (rule contributorValues_exact)
       (simp_all add: storedScore_def ex_plain bobWork_def carolWork_def)
  then show ?thesis
    by (simp add: exactValues_def asNumber_def storedScore_def bobWork_def carolWork_def)
qed

lemma ex_rounded_total: "totalValue [bobWork, carolWork] = Fin 25"
  using totalValue_exact [of "[bobWork, carolWork]"]
  by (simp add: storedScore_def bobWork_def carolWork_def)

lemma ex_rounded_shares:
  "contributorPercentages [bobWork, carolWork]
     = [\<lparr>sh_contributorId = ''pb'', sh_percentage = Fin (7881299347898369 / 2 ^ 48),
         sh_value = Number (Fin 7)\<rparr>,
        \<lparr>sh_contributorId = ''pc'', sh_percentage = Fin 72, sh_value = Number (Fin 18)\<rparr>]"
proof -
  have "objectEntries [(''pb'', Number (Fin 7)), (''pc'', Number (Fin 18))]
          = [(''pb'', Number (Fin 7)), (''pc'', Number (Fin 18))]"
    by (rule objectEntries_plain) (simp add: ex_not_index)
  then show ?thesis
    unfolding contributorPercentages_def ex_rounded_values ex_rounded_total
    by (simp add: ex_quotients del: jsDivide.simps jsTimes.simps)
qed

lemma ex_debit_shares:
  "totalValue [daveDebit] = Fin (- 5)
   \<and> contributorPercentages [daveDebit]
       = [\<lparr>sh_contributorId = ''pd'', sh_percentage = Fin 0, sh_value = Number (Fin (- 5))\<rparr>]"
proof -
  have t: "totalValue [daveDebit] = Fin (- 5)"
    using totalValue_exact [of "[daveDebit]"] by (simp add: storedScore_def daveDebit_def)
  have "contributorValues [daveDebit] = map asNumber (exactValues [daveDebit])"
    by (rule contributorValues_exact) (simp_all add: storedScore_def ex_plain daveDebit_def)
  then have v: "contributorValues [daveDebit] = [(''pd'', Number (Fin (- 5)))]"
    by (simp add: exactValues_def asNumber_def storedScore_def daveDebit_def)
  have e: "objectEntries [(''pd'', Number (Fin (- 5)))] = [(''pd'', Number (Fin (- 5)))]"
    by (rule objectEntries_plain) (simp add: ex_not_index)
  show ?thesis
    unfolding contributorPercentages_def v t e by simp
qed

lemma ex_unscored_shares:
  "contributorPercentages [daveUnscored]
     = [\<lparr>sh_contributorId = ''pd'', sh_percentage = Fin 0, sh_value = Number (Fin 0)\<rparr>]"
proof -
  have t: "totalValue [daveUnscored] = Fin 0"
    using totalValue_exact [of "[daveUnscored]"] by (simp add: storedScore_def daveUnscored_def)
  have "contributorValues [daveUnscored] = map asNumber (exactValues [daveUnscored])"
    by (rule contributorValues_exact) (simp_all add: storedScore_def ex_plain daveUnscored_def)
  then have v: "contributorValues [daveUnscored] = [(''pd'', Number (Fin 0))]"
    by (simp add: exactValues_def asNumber_def storedScore_def daveUnscored_def)
  have e: "objectEntries [(''pd'', Number (Fin 0))] = [(''pd'', Number (Fin 0))]"
    by (rule objectEntries_plain) (simp add: ex_not_index)
  show ?thesis
    unfolding contributorPercentages_def v t e by simp
qed

text \<open>
  C10, as stated, fails for a negative total. The valueScore column has no lower
  bound; with a single contribution of score -5 the total is -5, which is not 0, so the
  claim gives the contributor -5 / -5 * 100 = 100 percent, and the code, which divides
  only when the total is positive, gives 0.
\<close>

theorem contributorPercentages_counterexample:
  "totalValue [daveDebit] = Fin (- 5)
   \<and> contributorPercentages [daveDebit]
       = [\<lparr>sh_contributorId = ''pd'', sh_percentage = Fin 0, sh_value = Number (Fin (- 5))\<rparr>]
   \<and> spec_percentage (- 5) (- 5) = 100"
  using ex_debit_shares by (simp add: spec_percentage_def)

text \<open>
  C10, amended. Whatever the contributions, every percentage is 0 when the total does
  not compare greater than 0, so nothing is divided by zero. For contributions whose
  scores, in absolute value, sum to at most \<open>2 ^ 53\<close> (all sums are then exact in
  double arithmetic) and whose contributor ids are not names of
  \<open>Object.prototype\<close>: a missing valueScore counts as 0; the total is the sum of
  the scores; the distribution has one entry for each contributor of the list, whose
  value is the sum of that contributor's scores; its percentage is never NaN or
  infinite; it is 0 whenever the total is not positive, and otherwise the double
  quotient of the value by the total, multiplied in doubles by 100. For a total that
  is not negative, this number is within one part in \<open>2 ^ 51\<close> of the percentage
  of the specification.
\<close>

theorem contributorPercentages_safe:
  "(\<not> jsLess (Fin 0) (totalValue cs)
      \<longrightarrow> (\<forall>s \<in> set (contributorPercentages cs). sh_percentage s = Fin 0))
   \<and> (sum_list (map (\<lambda>c. \<bar>storedScore c\<bar>) cs) \<le> 2 ^ 53
        \<and> (\<forall>c \<in> set cs. plainKey (cn_contributorId c))
      \<longrightarrow>
         totalValue cs = Fin (of_int (sum_list (map storedScore cs)))
       \<and> (\<forall>c \<in> set cs. cn_valueScore c = None \<longrightarrow> scoreOrZero c = Fin 0 \<and> storedScore c = 0)
       \<and> sh_contributorId ` set (contributorPercentages cs) = cn_contributorId ` set cs
       \<and> distinct (map sh_contributorId (contributorPercentages cs))
       \<and> (\<forall>s \<in> set (contributorPercentages cs).
             sh_value s = Number (Fin (of_int (valueOf cs (sh_contributorId s))))
           \<and> sh_percentage s
               = (if 0 < sum_list (map storedScore cs)
                  then jsTimes (jsDivide (Fin (of_int (valueOf cs (sh_contributorId s))))
                                         (Fin (of_int (sum_list (map storedScore cs)))))
                               (Fin 100)
                  else Fin 0)
           \<and> (\<exists>p. sh_percentage s = Fin p
                  \<and> (0 \<le> sum_list (map storedScore cs) \<longrightarrow>
                        \<bar>p - spec_percentage (valueOf cs (sh_contributorId s))
                                             (sum_list (map storedScore cs))\<bar>
                          \<le> \<bar>spec_percentage (valueOf cs (sh_contributorId s))
                                              (sum_list (map storedScore cs))\<bar> / 2 ^ 51))))"
proof -
  have guard: "\<forall>s \<in> set (contributorPercentages cs). sh_percentage s = Fin 0"
    if "\<not> jsLess (Fin 0) (totalValue cs)"
    using that by (auto simp: contributorPercentages_def)
  have exact: "totalValue cs = Fin (of_int (sum_list (map storedScore cs)))
       \<and> (\<forall>c \<in> set cs. cn_valueScore c = None \<longrightarrow> scoreOrZero c = Fin 0 \<and> storedScore c = 0)
       \<and> sh_contributorId ` set (contributorPercentages cs) = cn_contributorId ` set cs
       \<and> distinct (map sh_contributorId (contributorPercentages cs))
       \<and> (\<forall>s \<in> set (contributorPercentages cs).
             sh_value s = Number (Fin (of_int (valueOf cs (sh_contributorId s))))
           \<and> sh_percentage s
               = (if 0 < sum_list (map storedScore cs)
                  then jsTimes (jsDivide (Fin (of_int (valueOf cs (sh_contributorId s))))
                                         (Fin (of_int (sum_list (map storedScore cs)))))
                               (Fin 100)
                  else Fin 0)
           \<and> (\<exists>p. sh_percentage s = Fin p
                  \<and> (0 \<le> sum_list (map storedScore cs) \<longrightarrow>
                        \<bar>p - spec_percentage (valueOf cs (sh_contributorId s))
                                             (sum_list (map storedScore cs))\<bar>
                          \<le> \<bar>spec_percentage (valueOf cs (sh_contributorId s))
                                              (sum_list (map storedScore cs))\<bar> / 2 ^ 51)))"
    if assms: "sum_list (map (\<lambda>c. \<bar>storedScore c\<bar>) cs) \<le> 2 ^ 53"
      "\<forall>c \<in> set cs. plainKey (cn_contributorId c)"
  proof -
  define T where "T = sum_list (map storedScore cs)"
  note vs = contributorValues_exact [OF assms(2) assms(1)]
  have t: "totalValue cs = Fin (of_int T)"
    unfolding T_def by (rule totalValue_exact [OF assms(1)])
  have T53: "\<bar>T\<bar> \<le> 2 ^ 53"
    using abs_sum_list [of storedScore cs] assms(1) by (simp add: T_def)
  have ids: "map sh_contributorId (contributorPercentages cs)
               = map fst (objectEntries (contributorValues cs))"
    by (simp add: contributorPercentages_def o_def split_def)
  have keys: "map fst (map asNumber (exactValues cs)) = map fst (exactValues cs)"
    by (simp add: asNumber_def o_def)
  have "set (map sh_contributorId (contributorPercentages cs)) = fst ` set (exactValues cs)"
    by (simp only: ids set_map set_objectEntries vs) (simp add: asNumber_def image_image)
  then have a: "sh_contributorId ` set (contributorPercentages cs) = cn_contributorId ` set cs"
    by (simp add: exactValues_keys)
  have b: "distinct (map sh_contributorId (contributorPercentages cs))"
    by (simp only: ids distinct_objectEntries vs keys exactValues_distinct)
  have c: "\<forall>c \<in> set cs. cn_valueScore c = None \<longrightarrow> scoreOrZero c = Fin 0 \<and> storedScore c = 0"
    by (simp add: scoreOrZero_def storedScore_def)
  have d: "sh_value s = Number (Fin (of_int (valueOf cs (sh_contributorId s))))
           \<and> sh_percentage s
               = (if 0 < T
                  then jsTimes (jsDivide (Fin (of_int (valueOf cs (sh_contributorId s))))
                                         (Fin (of_int T)))
                               (Fin 100)
                  else Fin 0)
           \<and> (\<exists>p. sh_percentage s = Fin p
                  \<and> (0 \<le> T \<longrightarrow>
                        \<bar>p - spec_percentage (valueOf cs (sh_contributorId s)) T\<bar>
                          \<le> \<bar>spec_percentage (valueOf cs (sh_contributorId s)) T\<bar> / 2 ^ 51))"
    if "s \<in> set (contributorPercentages cs)" for s
  proof -
    from that obtain i v where iv: "(i, v) \<in> set (objectEntries (contributorValues cs))"
      and s: "s = \<lparr>sh_contributorId = i,
                    sh_percentage = (if jsLess (Fin 0) (totalValue cs)
                                     then jsTimes (jsDivide (toNumber v) (totalValue cs)) (Fin 100)
                                     else Fin 0),
                    sh_value = v\<rparr>"
      by (auto simp: contributorPercentages_def)
    from iv have "(i, v) \<in> set (map asNumber (exactValues cs))"
      by (simp only: set_objectEntries vs)
    then obtain n where n: "(i, n) \<in> set (exactValues cs)" and v: "v = Number (Fin (of_int n))"
      by (auto simp: asNumber_def)
    from exactValues_entry [OF n] have nv: "n = valueOf cs i" by simp
    have n53: "\<bar>n\<bar> \<le> 2 ^ 53"
      using valueOf_bound [of cs i] assms(1) by (simp add: nv)
    have val: "sh_value s = Number (Fin (of_int (valueOf cs (sh_contributorId s))))"
      by (simp add: s v nv)
    have pct: "sh_percentage s
               = (if 0 < T then jsTimes (jsDivide (Fin (of_int n)) (Fin (of_int T))) (Fin 100)
                  else Fin 0)"
      by (simp add: s v t)
    have fin: "\<exists>p. sh_percentage s = Fin p
                  \<and> (0 \<le> T \<longrightarrow> \<bar>p - spec_percentage n T\<bar> \<le> \<bar>spec_percentage n T\<bar> / 2 ^ 51)"
    proof (cases "0 < T")
      case True
      with T53 have "T \<le> 2 ^ 53" by simp
      from percentage_near [OF True this n53] True show ?thesis
        by (simp add: pct spec_percentage_def)
    next
      case False
      then have "sh_percentage s = Fin 0" by (simp add: pct)
      with False show ?thesis by (auto simp: spec_percentage_def)
    qed
    from val pct fin show ?thesis by (simp add: s nv)
  qed
  from t a b c d show ?thesis unfolding T_def by blast
  qed
  from guard exact show ?thesis by blast
qed

theorem contributorPercentages_safe_witness:
  "sum_list (map (\<lambda>c. \<bar>storedScore c\<bar>) [aliceWork, daveWork, daveUnscored]) \<le> 2 ^ 53
   \<and> plainKey ''pa'' \<and> plainKey ''pd''
   \<and> contributorPercentages [aliceWork, daveWork, daveUnscored]
     = [\<lparr>sh_contributorId = ''pa'', sh_percentage = Fin 75, sh_value = Number (Fin 30)\<rparr>,
        \<lparr>sh_contributorId = ''pd'', sh_percentage = Fin 25, sh_value = Number (Fin 10)\<rparr>]
   \<and> cn_valueScore daveUnscored = None
   \<and> totalValue [aliceWork, daveWork, daveUnscored] = Fin 40
   \<and> contributorPercentages [bobWork, carolWork]
     = [\<lparr>sh_contributorId = ''pb'', sh_percentage = Fin (7881299347898369 / 2 ^ 48),
         sh_value = Number (Fin 7)\<rparr>,
        \<lparr>sh_contributorId = ''pc'', sh_percentage = Fin 72, sh_value = Number (Fin 18)\<rparr>]
   \<and> spec_percentage 7 25 = 28
   \<and> contributorPercentages [daveUnscored]
     = [\<lparr>sh_contributorId = ''pd'', sh_percentage = Fin 0, sh_value = Number (Fin 0)\<rparr>]
   \<and> \<not> jsLess (Fin 0) (totalValue [daveUnscored])
   \<and> map sh_percentage (contributorPercentages [daveUnscored]) = [Fin 0]
   \<and> jsDivide (Fin 0) (Fin 0) = NaN"
proof -
  let ?cs = "[aliceWork, daveWork, daveUnscored]"
  have h: "sum_list (map (\<lambda>c. \<bar>storedScore c\<bar>) ?cs) \<le> 2 ^ 53"
    by (simp add: storedScore_def aliceWork_def daveWork_def daveUnscored_def)
  have k: "\<forall>c \<in> set ?cs. plainKey (cn_contributorId c)"
    by (simp add: ex_plain aliceWork_def daveWork_def daveUnscored_def)
  have s: "sum_list (map storedScore ?cs) = 40"
    by (simp add: storedScore_def aliceWork_def daveWork_def daveUnscored_def)
  from contributorPercentages_safe [of ?cs] h k
  have "totalValue ?cs = Fin (of_int (sum_list (map storedScore ?cs)))" by blast
  then have t: "totalValue ?cs = Fin 40" by (simp only: s of_int_numeral)
  have e: "objectEntries [(''pa'', Number (Fin 30)), (''pd'', Number (Fin 10))]
          = [(''pa'', Number (Fin 30)), (''pd'', Number (Fin 10))]"
    by (rule objectEntries_plain) (simp add: ex_not_index)
  have p: "contributorPercentages ?cs
     = [\<lparr>sh_contributorId = ''pa'', sh_percentage = Fin 75, sh_value = Number (Fin 30)\<rparr>,
        \<lparr>sh_contributorId = ''pd'', sh_percentage = Fin 25, sh_value = Number (Fin 10)\<rparr>]"
    unfolding contributorPercentages_def ex_values t e
    by (simp add: ex_quotients del: jsDivide.simps jsTimes.simps)
  have n: "cn_valueScore daveUnscored = None" by (simp add: daveUnscored_def)
  have sp: "spec_percentage 7 25 = 28" by (simp add: spec_percentage_def)
  have z: "jsDivide (Fin 0) (Fin 0) = NaN" by simp
  have "totalValue [daveUnscored] = Fin 0"
    using totalValue_exact [of "[daveUnscored]"] by (simp add: storedScore_def daveUnscored_def)
  then have t0: "\<not> jsLess (Fin 0) (totalValue [daveUnscored])" by simp
  with contributorPercentages_safe [of "[daveUnscored]"]
  have "\<forall>s \<in> set (contributorPercentages [daveUnscored]). sh_percentage s = Fin 0" by blast
  then have g: "map sh_percentage (contributorPercentages [daveUnscored]) = [Fin 0]"
    by (simp add: ex_unscored_shares)
  from h ex_plain(1) ex_plain(4) p n t ex_rounded_shares sp ex_unscored_shares t0 g z
  show ?thesis by blast
qed

section \<open>Project sub-resources\<close>











end
